theory Spec2Isabelle
  imports Main "HOL-Library.Word"
begin

section \<open>Python values, exceptions and strings\<close>

text \<open>
  The two bots (\<^verbatim>\<open>main.py\<close>, the pull-request approval bot, and
  \<^verbatim>\<open>sentry_summary/main.py\<close>, the performance-report bot) are embedded as
  state-passing functions. A handler takes the environment (the answers of the external
  collaborators: secret store, GitHub, Sentry, Slack), its input and the bot's state, and returns
  the exception that escaped it, if any, with the new state. The state is the trace of
  the calls made to the collaborators, in order, and the Prometheus counters.

  Message texts are \<open>string\<close>s (8-bit characters), on which \<^verbatim>\<open>\d\<close> is exactly
  \<^verbatim>\<open>[0-9]\<close>. Parsed JSON (the body of an interactive callback, the metadata of a
  message) is a \<open>pyval\<close>: a string, an integer or a dict from strings to values.
\<close>

datatype pyval = PStr string | PInt int | PDict "(string \<times> pyval) list"

text \<open>
  Exceptions: the two that the handlers' own subscripting can raise, and \<open>Raised t m\<close>,
  an exception of type name \<open>t\<close> and message \<open>m\<close> raised inside a collaborator
  (\<^verbatim>\<open>get_secret\<close>, \<^verbatim>\<open>requests.get\<close>, \<^verbatim>\<open>requests.post\<close>,
  \<^verbatim>\<open>response.json()\<close>, \<^verbatim>\<open>float\<close>). All are subclasses of
  \<^verbatim>\<open>Exception\<close>.
\<close>

datatype exn = KeyError string | TypeError string | Raised string string

abbreviation newline :: char where
  "newline \<equiv> CHR 0x0A"

abbreviation quote :: char where
  "quote \<equiv> CHR 0x27"

fun exn_name :: "exn \<Rightarrow> string" where
  "exn_name (KeyError k) = ''KeyError''"
| "exn_name (TypeError m) = ''TypeError''"
| "exn_name (Raised t m) = t"

text \<open>
  \<^verbatim>\<open>str(e)\<close>. For a \<^verbatim>\<open>KeyError\<close> it is the \<^verbatim>\<open>repr\<close> of the key: the key
  between single quotes, for the keys the handlers use (letters and underscores).
\<close>

fun exn_str :: "exn \<Rightarrow> string" where
  "exn_str (KeyError k) = [quote] @ k @ [quote]"
| "exn_str (TypeError m) = m"
| "exn_str (Raised t m) = m"

text \<open>
  \<^verbatim>\<open>v[k]\<close> for a string key \<open>k\<close>: a dict raises \<^verbatim>\<open>KeyError\<close> when
  the key is missing, a string or an integer raises \<^verbatim>\<open>TypeError\<close> (with CPython's
  message).
\<close>

fun py_getitem :: "pyval \<Rightarrow> string \<Rightarrow> exn + pyval" where
  "py_getitem (PDict kvs) k =
     (case map_of kvs k of None \<Rightarrow> Inl (KeyError k) | Some v \<Rightarrow> Inr v)"
| "py_getitem (PStr s) k =
     Inl (TypeError (''string indices must be integers, not '' @ [quote] @ ''str'' @ [quote]))"
| "py_getitem (PInt i) k =
     Inl (TypeError ([quote] @ ''int'' @ [quote] @ '' object is not subscriptable''))"

definition bind_exn :: "exn + 'a \<Rightarrow> ('a \<Rightarrow> exn + 'b) \<Rightarrow> exn + 'b" where
  "bind_exn r f = (case r of Inl e \<Rightarrow> Inl e | Inr x \<Rightarrow> f x)"

definition is_digit :: "char \<Rightarrow> bool" where
  "is_digit c = (c \<in> set ''0123456789'')"

definition digit_char :: "nat \<Rightarrow> char" where
  "digit_char d = ''0123456789'' ! (d mod 10)"

definition digit_val :: "char \<Rightarrow> nat" where
  "digit_val c = of_char c - 48"

text \<open>\<^verbatim>\<open>str(n)\<close> for an integer: decimal, no leading zeros, a minus sign when negative.\<close>

fun str_nat :: "nat \<Rightarrow> string" where
  "str_nat n = (if n < 10 then [digit_char n] else str_nat (n div 10) @ [digit_char n])"

declare str_nat.simps [simp del]

definition str_int :: "int \<Rightarrow> string" where
  "str_int i = (if i < 0 then CHR ''-'' # str_nat (nat (- i)) else str_nat (nat i))"

text \<open>\<^verbatim>\<open>int(s)\<close> on a non-empty string of decimal digits (what \<^verbatim>\<open>(\d+)\<close> captures).\<close>

definition int_of_digits :: "string \<Rightarrow> int" where
  "int_of_digits ds = int (foldl (\<lambda>acc c. 10 * acc + digit_val c) 0 ds)"

text \<open>
  \<^verbatim>\<open>str(v)\<close>, as an f-string applies it. The text Python prints for a dict is left to
  the parameter \<open>repr_dict\<close>.
\<close>

fun py_str :: "((string \<times> pyval) list \<Rightarrow> string) \<Rightarrow> pyval \<Rightarrow> string" where
  "py_str repr_dict (PStr s) = s"
| "py_str repr_dict (PInt i) = str_int i"
| "py_str repr_dict (PDict kvs) = repr_dict kvs"

text \<open>\<^verbatim>\<open>s.split(sep)\<close> for a one-character separator, and \<^verbatim>\<open>sep.join(xs)\<close>.\<close>

fun py_split :: "char \<Rightarrow> string \<Rightarrow> string list" where
  "py_split sep [] = [[]]"
| "py_split sep (c # cs) =
     (if c = sep then [] # py_split sep cs
      else (case py_split sep cs of [] \<Rightarrow> [[c]] | l # ls \<Rightarrow> (c # l) # ls))"

fun py_join :: "string \<Rightarrow> string list \<Rightarrow> string" where
  "py_join sep [] = []"
| "py_join sep [x] = x"
| "py_join sep (x # y # ys) = x @ sep @ py_join sep (y # ys)"

text \<open>\<^verbatim>\<open>needle in hay\<close> for strings: the needle occurs as a contiguous substring.\<close>

fun starts_with :: "string \<Rightarrow> string \<Rightarrow> bool" where
  "starts_with [] s = True"
| "starts_with (p # ps) [] = False"
| "starts_with (p # ps) (c # cs) = (p = c \<and> starts_with ps cs)"

fun py_in :: "string \<Rightarrow> string \<Rightarrow> bool" where
  "py_in needle [] = (needle = [])"
| "py_in needle (c # cs) = (starts_with needle (c # cs) \<or> py_in needle cs)"

section \<open>The collaborators: HTTP, Slack, counters\<close>

record response =
  ok :: bool
  status_code :: nat
  resp_text :: string

datatype element = Button string string string

text \<open>
  The Block Kit dicts the handlers build: a section with a \<^verbatim>\<open>mrkdwn\<close> or a
  \<^verbatim>\<open>plain_text\<close> text, an actions block, a divider, a section with \<^verbatim>\<open>mrkdwn\<close>
  fields. A button is \<open>Button action_id style text\<close>.
\<close>

datatype block =
  Section_mrkdwn string
| Section_plain string
| Actions "element list"
| Divider
| Section_fields "string list"

text \<open>
  The calls a handler makes, as the trace records them:
  \<open>Say blocks text thread_ts metadata\<close> (with \<open>[]\<close> and \<open>None\<close> for an argument that
  is not passed), \<open>Reactions_add channel timestamp name\<close>, \<open>Chat_delete channel ts\<close>,
  \<open>Requests_get url headers params\<close>, \<open>Requests_post url headers json\<close>.
  A call is recorded when it is made, whatever its outcome. Logging is not part of the
  trace.

  The calls to the secret store, to \<^verbatim>\<open>requests\<close> and to the Slack Web API
  (\<^verbatim>\<open>say\<close>, which posts a message, \<^verbatim>\<open>reactions_add\<close> and
  \<^verbatim>\<open>chat_delete\<close>) return or raise, as the environment says; an environment gives
  the answers of the collaborators during one run of a handler. \<^verbatim>\<open>ack\<close> only hands
  the acknowledgement to the framework that called the handler: it returns.
\<close>

datatype call =
  Ack
| Say "block list" string "string option" "pyval option"
| Reactions_add pyval pyval string
| Chat_delete pyval pyval
| Requests_get string "(string \<times> string) list" "(string \<times> pyval) list"
| Requests_post string "(string \<times> string) list" pyval

record message =
  msg_text :: string
  msg_ts :: string
  msg_thread_ts :: "string option"

section \<open>main.py: the pull-request approval bot\<close>

text \<open>
  The environment of the approval bot. \<open>slack c\<close> is the exception that the Slack call
  \<open>c\<close> raises, \<open>None\<close> when it returns.
\<close>

record approve_env =
  gkwillie_token :: string
  get_secret :: "string \<Rightarrow> exn + string"
  requests :: "call \<Rightarrow> exn + response"
  slack :: "call \<Rightarrow> exn option"
  repr_dict :: "(string \<times> pyval) list \<Rightarrow> string"

record bot =
  calls :: "call list"
  sent_count :: nat
  approved_count :: nat

definition emit :: "call \<Rightarrow> bot \<Rightarrow> bot" where
  "emit c st = st\<lparr>calls := calls st @ [c]\<rparr>"

subsection \<open>The trigger pattern\<close>

text \<open>
  The fragment of regular expressions that \<^verbatim>\<open>pr_re\<close> starts with: a sequence of
  literal characters and of dots (any character but a newline).
\<close>

datatype atom = Lit char | Dot

fun atom_ok :: "atom \<Rightarrow> char \<Rightarrow> bool" where
  "atom_ok (Lit a) c = (c = a)"
| "atom_ok Dot c = (c \<noteq> newline)"

fun match_atoms :: "atom list \<Rightarrow> string \<Rightarrow> string option" where
  "match_atoms [] s = Some s"
| "match_atoms (a # as) [] = None"
| "match_atoms (a # as) (c # cs) = (if atom_ok a c then match_atoms as cs else None)"

text \<open>
  \<^verbatim>\<open>pr_re = re.compile("https://github.com/(athenianco/[^/]+)/pull/(\d+)")\<close>, matched
  at the start of \<open>s\<close>: the result is group 1, group 2 and the text after the match.
  The dot of \<^verbatim>\<open>github.com\<close> is not escaped. \<^verbatim>\<open>[^/]+\<close> is greedy and is
  followed by a literal slash, so it can only stand for the whole run of characters up to
  the next slash; \<^verbatim>\<open>\d+\<close> is greedy and last, so it takes the whole run of digits.
\<close>

definition pr_re_match :: "string \<Rightarrow> (string \<times> string \<times> string) option" where
  "pr_re_match s =
     (case match_atoms (map Lit ''https://github'' @ [Dot] @ map Lit ''com/athenianco/'') s of
        None \<Rightarrow> None
      | Some s1 \<Rightarrow>
          (let name = takeWhile (\<lambda>c. c \<noteq> CHR ''/'') s1;
               s2 = dropWhile (\<lambda>c. c \<noteq> CHR ''/'') s1
           in if name = [] then None
              else (case match_atoms (map Lit ''/pull/'') s2 of
                      None \<Rightarrow> None
                    | Some s3 \<Rightarrow>
                        (let digits = takeWhile is_digit s3
                         in if digits = [] then None
                            else Some (''athenianco/'' @ name, digits, dropWhile is_digit s3)))))"

text \<open>
  \<^verbatim>\<open>pr_re.finditer(text)\<close>: the matches from left to right, each search starting
  where the previous match ended. The groups of each match are kept.
\<close>

function pr_re_finditer :: "string \<Rightarrow> (string \<times> string) list" where
  "pr_re_finditer s =
     (case pr_re_match s of
        Some m \<Rightarrow> (fst m, fst (snd m)) # pr_re_finditer (snd (snd m))
      | None \<Rightarrow> (case s of [] \<Rightarrow> [] | c # cs \<Rightarrow> pr_re_finditer cs))"
  by pat_completeness auto
termination
proof (relation "measure length")
  show "wf (measure length)" by simp
next
  fix s :: string and m
  assume m: "pr_re_match s = Some m"
  have atoms: "\<And>as t r. match_atoms as t = Some r \<Longrightarrow> length r + length as = length t"
  proof -
    fix as t r show "match_atoms as t = Some r \<Longrightarrow> length r + length as = length t"
      by (induction as t rule: match_atoms.induct) (auto split: if_splits)
  qed
  have dw: "\<And>P (t :: string). length (dropWhile P t) \<le> length t"
    by (simp add: length_dropWhile_le)
  from m obtain s1 s3 where
    s1: "match_atoms (map Lit ''https://github'' @ [Dot] @ map Lit ''com/athenianco/'') s = Some s1"
    and s3: "match_atoms (map Lit ''/pull/'') (dropWhile (\<lambda>c. c \<noteq> CHR ''/'') s1) = Some s3"
    and r: "snd (snd m) = dropWhile is_digit s3"
    by (auto simp: pr_re_match_def Let_def split: option.splits if_splits)
  from atoms[OF s1] have "length s1 < length s" by simp
  moreover from atoms[OF s3] dw[of "\<lambda>c. c \<noteq> CHR ''/''" s1] have "length s3 \<le> length s1" by simp
  moreover from dw[of is_digit s3] r have "length (snd (snd m)) \<le> length s3" by simp
  ultimately show "(snd (snd m), s) \<in> measure length" by simp
next
  fix s :: string and c cs
  assume "s = c # cs"
  then show "(cs, s) \<in> measure length" by simp
qed

declare pr_re_finditer.simps [simp del]

subsection \<open>message_url\<close>

text \<open>Lines 62 to 64: the changed lines of a diff, capped at eight.\<close>

definition diff_lines :: "string \<Rightarrow> string list" where
  "diff_lines t =
     (let ls = filter (\<lambda>line. take 1 line = ''+'' \<or> take 1 line = ''-'') (py_split newline t)
      in if length ls > 8 then take 8 ls @ [''...''] else ls)"

definition diff_blocks :: "response \<Rightarrow> block list" where
  "diff_blocks r =
     (if ok r then [Section_mrkdwn (''```'' @ py_join [newline] (diff_lines (resp_text r)) @ ''```'')]
      else [])"

definition offer_metadata :: "string \<Rightarrow> int \<Rightarrow> string \<Rightarrow> pyval" where
  "offer_metadata repo number ts =
     PDict [(''event_type'', PStr ''approve_offer''),
            (''event_payload'',
               PDict [(''repository'', PStr repo), (''number'', PInt number), (''ts'', PStr ts)])]"

definition offer :: "string \<Rightarrow> int \<Rightarrow> message \<Rightarrow> block list \<Rightarrow> call" where
  "offer repo number m diff =
     Say ([Section_mrkdwn (''Approve this PR? *'' @ repo @ ''#'' @ str_int number @ ''*''),
           Actions [Button ''approve'' ''primary'' ''Approve'']] @ diff)
         (''Approve this PR? '' @ repo @ ''#'' @ str_int number)
         None
         (Some (offer_metadata repo number (msg_ts m)))"

definition diff_request :: "approve_env \<Rightarrow> string \<Rightarrow> int \<Rightarrow> call" where
  "diff_request env repo number =
     Requests_get (''https://api.github.com/repos/'' @ repo @ ''/pulls/'' @ str_int number)
       [(''Authorization'', ''token '' @ gkwillie_token env),
        (''Accept'', ''application/vnd.github.v3.diff'')] []"

text \<open>One iteration of the loop of \<^verbatim>\<open>message_url\<close>, for one match.\<close>

definition offer_step ::
  "approve_env \<Rightarrow> message \<Rightarrow> string \<times> string \<Rightarrow> bot \<Rightarrow> exn option \<times> bot" where
  "offer_step env m grp st =
     (let repo = fst grp;
          number = int_of_digits (snd grp);
          st1 = emit (diff_request env repo number) st
      in case requests env (diff_request env repo number) of
           Inl e \<Rightarrow> (Some e, st1)
         | Inr r \<Rightarrow>
             (let st2 = emit (offer repo number m (diff_blocks r)) st1
              in case slack env (offer repo number m (diff_blocks r)) of
                   Some e \<Rightarrow> (Some e, st2)
                 | None \<Rightarrow> (None, st2\<lparr>sent_count := sent_count st2 + 1\<rparr>)))"

fun offer_loop ::
  "approve_env \<Rightarrow> message \<Rightarrow> (string \<times> string) list \<Rightarrow> bot \<Rightarrow> exn option \<times> bot" where
  "offer_loop env m [] st = (None, st)"
| "offer_loop env m (grp # grps) st =
     (case offer_step env m grp st of
        (Some e, st') \<Rightarrow> (Some e, st')
      | (None, st') \<Rightarrow> offer_loop env m grps st')"

definition message_url :: "approve_env \<Rightarrow> message \<Rightarrow> bot \<Rightarrow> exn option \<times> bot" where
  "message_url env m st = offer_loop env m (pr_re_finditer (msg_text m)) st"

subsection \<open>action_approve\<close>

text \<open>
  The nested function \<^verbatim>\<open>fail\<close>: both f-strings subscript \<^verbatim>\<open>metadata\<close> before
  \<^verbatim>\<open>say\<close> is called, so a missing key escapes \<^verbatim>\<open>fail\<close> with nothing sent.
  \<^verbatim>\<open>fail\<close> is called outside the \<^verbatim>\<open>try\<close> (in the \<^verbatim>\<open>except\<close> clause
  and in the \<^verbatim>\<open>else\<close> branch), so what \<^verbatim>\<open>say\<close> raises escapes too.
\<close>

definition fail :: "approve_env \<Rightarrow> pyval \<Rightarrow> string \<Rightarrow> bot \<Rightarrow> exn option \<times> bot" where
  "fail env metadata reason st =
     (case py_getitem metadata ''repository'' of
        Inl e \<Rightarrow> (Some e, st)
      | Inr repository \<Rightarrow>
          (case py_getitem metadata ''number'' of
             Inl e \<Rightarrow> (Some e, st)
           | Inr number \<Rightarrow>
               (let target = py_str (repr_dict env) repository @ ''#'' @ py_str (repr_dict env) number;
                    reply = Say [Section_mrkdwn (''Failed to approve *'' @ target @ ''*:''),
                                 Section_plain reason]
                                (''Failed to approve *'' @ target @ ''*'') None None
                in (slack env reply, emit reply st))))"

definition approve_call :: "pyval \<Rightarrow> pyval \<Rightarrow> string \<Rightarrow> ((string \<times> pyval) list \<Rightarrow> string) \<Rightarrow> call" where
  "approve_call repository number token rd =
     Requests_post
       (''https://api.github.com/repos/'' @ py_str rd repository @ ''/pulls/'' @ py_str rd number
          @ ''/reviews'')
       [(''Authorization'', ''token '' @ token)]
       (PDict [(''event'', PStr ''APPROVE'')])"

text \<open>
  The body of the \<^verbatim>\<open>try\<close> statement (lines 143 to 148), in Python's order of
  evaluation: the user's id, the secret, the URL (which subscripts \<^verbatim>\<open>metadata\<close>),
  the request.
\<close>

definition approve_request :: "approve_env \<Rightarrow> pyval \<Rightarrow> pyval \<Rightarrow> bot \<Rightarrow> (exn + response) \<times> bot" where
  "approve_request env body metadata st =
     (case bind_exn (py_getitem body ''user'') (\<lambda>u. py_getitem u ''id'') of
        Inl e \<Rightarrow> (Inl e, st)
      | Inr uid \<Rightarrow>
          (case get_secret env (''github_token_'' @ py_str (repr_dict env) uid) of
             Inl e \<Rightarrow> (Inl e, st)
           | Inr token \<Rightarrow>
               (case py_getitem metadata ''repository'' of
                  Inl e \<Rightarrow> (Inl e, st)
                | Inr repository \<Rightarrow>
                    (case py_getitem metadata ''number'' of
                       Inl e \<Rightarrow> (Inl e, st)
                     | Inr number \<Rightarrow>
                         (requests env (approve_call repository number token (repr_dict env)),
                          emit (approve_call repository number token (repr_dict env)) st)))))"

text \<open>
  Lines 152 to 160, after a response with \<^verbatim>\<open>response.ok\<close>: the arguments of each
  call are evaluated from left to right, and both calls are made outside the
  \<^verbatim>\<open>try\<close>. When \<^verbatim>\<open>reactions_add\<close> raises, \<^verbatim>\<open>chat_delete\<close> is not
  called; when either raises, \<^verbatim>\<open>approved_count.inc()\<close> is not reached.
\<close>

definition approved :: "approve_env \<Rightarrow> pyval \<Rightarrow> pyval \<Rightarrow> pyval \<Rightarrow> bot \<Rightarrow> exn option \<times> bot" where
  "approved env body message metadata st =
     (case bind_exn (py_getitem body ''channel'') (\<lambda>c. py_getitem c ''id'') of
        Inl e \<Rightarrow> (Some e, st)
      | Inr channel \<Rightarrow>
          (case py_getitem metadata ''ts'' of
             Inl e \<Rightarrow> (Some e, st)
           | Inr ts \<Rightarrow>
               (let st1 = emit (Reactions_add channel ts ''heavy_check_mark'') st
                in case slack env (Reactions_add channel ts ''heavy_check_mark'') of
                     Some e \<Rightarrow> (Some e, st1)
                   | None \<Rightarrow>
                       (case py_getitem message ''ts'' of
                          Inl e \<Rightarrow> (Some e, st1)
                        | Inr mts \<Rightarrow>
                            (let st2 = emit (Chat_delete channel mts) st1
                             in case slack env (Chat_delete channel mts) of
                                  Some e \<Rightarrow> (Some e, st2)
                                | None \<Rightarrow>
                                    (None, st2\<lparr>approved_count := approved_count st2 + 1\<rparr>))))))"

text \<open>Line 119: \<^verbatim>\<open>message["metadata"]["event_payload"]\<close>.\<close>

definition callback_metadata :: "pyval \<Rightarrow> exn + pyval" where
  "callback_metadata message =
     bind_exn (py_getitem message ''metadata'') (\<lambda>md. py_getitem md ''event_payload'')"

definition action_approve :: "approve_env \<Rightarrow> pyval \<Rightarrow> bot \<Rightarrow> exn option \<times> bot" where
  "action_approve env body st =
     (let st0 = emit Ack st
      in case py_getitem body ''message'' of
           Inl e \<Rightarrow> (Some e, st0)
         | Inr message \<Rightarrow>
             (case callback_metadata message of
                Inl e \<Rightarrow> (Some e, st0)
              | Inr metadata \<Rightarrow>
                  (case approve_request env body metadata st0 of
                     (Inl e, st1) \<Rightarrow> fail env metadata (exn_name e @ '': '' @ exn_str e) st1
                   | (Inr r, st1) \<Rightarrow>
                       if ok r then approved env body message metadata st1
                       else fail env metadata (resp_text r) st1)))"

text \<open>
  \<^verbatim>\<open>@bolt_app.message(pr_re)\<close>: the framework calls the listener for a message in whose
  text the pattern is found, and not otherwise.
\<close>

definition pr_listener :: "approve_env \<Rightarrow> message \<Rightarrow> bot \<Rightarrow> exn option \<times> bot" where
  "pr_listener env m st =
     (if pr_re_finditer (msg_text m) \<noteq> [] then message_url env m st else (None, st))"

section \<open>sentry_summary/main.py: the performance-report bot\<close>

text \<open>
  A record of the result set is a dict from field names to values of a type \<open>'v\<close>, which
  stays abstract: the values are JSON numbers and strings, formatted with floating point.
  The environment gives the three conversions that \<^verbatim>\<open>format_value\<close> and the f-string
  apply: \<^verbatim>\<open>"%.3fs" % (float(value) / 1000)\<close>, \<^verbatim>\<open>"%.3f" % float(value)\<close>
  (both raise when \<^verbatim>\<open>float\<close> does) and \<^verbatim>\<open>str(value)\<close>.
  \<open>json_data\<close> is the outcome of \<^verbatim>\<open>response.json()["data"]\<close>, and
  \<open>sentry_slack c\<close> is the exception that the Slack call \<open>c\<close> raises, \<open>None\<close>
  when it returns.
\<close>

record 'v sentry_response = response +
  json_data :: "exn + (string \<times> 'v) list list"

record 'v sentry_env =
  sentry_token :: string
  sentry_requests :: "call \<Rightarrow> exn + 'v sentry_response"
  sentry_slack :: "call \<Rightarrow> exn option"
  percent_3fs_of_ms :: "'v \<Rightarrow> exn + string"
  percent_3f :: "'v \<Rightarrow> exn + string"
  str_value :: "'v \<Rightarrow> string"

record sentry_bot =
  sentry_calls :: "call list"
  sent_performance_count :: nat

definition sentry_emit :: "call \<Rightarrow> sentry_bot \<Rightarrow> sentry_bot" where
  "sentry_emit c st = st\<lparr>sentry_calls := sentry_calls st @ [c]\<rparr>"

subsection \<open>The patterns\<close>

text \<open>
  \<^verbatim>\<open>stats_period_re = re.compile(r"\d+[hd]")\<close> matched at the start of \<open>s\<close> (greedy
  digits, then one of \<^verbatim>\<open>h\<close>, \<^verbatim>\<open>d\<close>: giving a digit back cannot help, the next
  character would be a digit), and \<^verbatim>\<open>stats_period_re.search\<close>, the leftmost match.
  The result is \<^verbatim>\<open>group()\<close>.
\<close>

definition stats_period_re_match :: "string \<Rightarrow> string option" where
  "stats_period_re_match s =
     (let digits = takeWhile is_digit s
      in if digits = [] then None
         else (case dropWhile is_digit s of
                 [] \<Rightarrow> None
               | c # cs \<Rightarrow> if c = CHR ''h'' \<or> c = CHR ''d'' then Some (digits @ [c]) else None))"

fun stats_period_re_search :: "string \<Rightarrow> string option" where
  "stats_period_re_search [] = None"
| "stats_period_re_search (c # cs) =
     (case stats_period_re_match (c # cs) of
        Some tok \<Rightarrow> Some tok
      | None \<Rightarrow> stats_period_re_search cs)"

text \<open>
  \<^verbatim>\<open>re.compile(r"performance|(request.*slow)|(slow.*request)")\<close>, searched in the text.
  \<open>a.*b\<close> matches at the start of \<open>s\<close> when \<open>s\<close> starts with \<open>a\<close> and \<open>b\<close> occurs
  later before the next newline.
\<close>

definition dotstar_match :: "string \<Rightarrow> string \<Rightarrow> string \<Rightarrow> bool" where
  "dotstar_match a b s =
     (case match_atoms (map Lit a) s of
        None \<Rightarrow> False
      | Some r \<Rightarrow> py_in b (takeWhile (\<lambda>c. c \<noteq> newline) r))"

fun dotstar_search :: "string \<Rightarrow> string \<Rightarrow> string \<Rightarrow> bool" where
  "dotstar_search a b [] = dotstar_match a b []"
| "dotstar_search a b (c # cs) = (dotstar_match a b (c # cs) \<or> dotstar_search a b cs)"

definition trigger_re_search :: "string \<Rightarrow> bool" where
  "trigger_re_search s =
     (py_in ''performance'' s \<or> dotstar_search ''request'' ''slow'' s
        \<or> dotstar_search ''slow'' ''request'' s)"

subsection \<open>Rendering\<close>

definition item_get :: "(string \<times> 'v) list \<Rightarrow> string \<Rightarrow> exn + 'v" where
  "item_get item k = (case map_of item k of None \<Rightarrow> Inl (KeyError k) | Some v \<Rightarrow> Inr v)"

text \<open>\<^verbatim>\<open>format_value\<close>, followed by the \<^verbatim>\<open>str\<close> of the f-string that uses its result.\<close>

definition format_value :: "'v sentry_env \<Rightarrow> string \<Rightarrow> 'v \<Rightarrow> exn + string" where
  "format_value env name v =
     (if name = ''p50()'' \<or> name = ''p95()'' then percent_3fs_of_ms env v
      else if name = ''failure_rate()'' then percent_3f env v
      else Inr (str_value env v))"

text \<open>\<^verbatim>\<open>key.replace('()', '')\<close>.\<close>

fun replace_parens :: "string \<Rightarrow> string" where
  "replace_parens (a # b # cs) =
     (if a = CHR ''('' \<and> b = CHR '')'' then replace_parens cs else a # replace_parens (b # cs))"
| "replace_parens cs = cs"

fun map_exn :: "('a \<Rightarrow> exn + 'b) \<Rightarrow> 'a list \<Rightarrow> exn + 'b list" where
  "map_exn f [] = Inr []"
| "map_exn f (x # xs) =
     bind_exn (f x) (\<lambda>y. bind_exn (map_exn f xs) (\<lambda>ys. Inr (y # ys)))"

definition render_line :: "'v sentry_env \<Rightarrow> (string \<times> 'v) list \<Rightarrow> string \<Rightarrow> exn + string" where
  "render_line env item key =
     bind_exn (item_get item key) (\<lambda>v.
     bind_exn (format_value env key v) (\<lambda>shown.
     Inr (''*'' @ replace_parens key @ '':* '' @ shown)))"

definition render_item :: "'v sentry_env \<Rightarrow> (string \<times> 'v) list \<Rightarrow> exn + string" where
  "render_item env item =
     bind_exn (item_get item ''transaction'') (\<lambda>t.
     bind_exn (map_exn (render_line env item)
                 [''p50()'', ''p95()'', ''failure_rate()'', ''count_unique(user)'', ''count(user)'']) (\<lambda>ls.
     Inr (''*`'' @ str_value env t @ ''`*'' @ [newline] @ py_join [newline] ls)))"

subsection \<open>report_api_performance\<close>

definition performance_query :: "'v sentry_env \<Rightarrow> string \<Rightarrow> nat \<Rightarrow> call" where
  "performance_query env stats_period limit =
     Requests_get ''https://sentry.io/api/0/organizations/athenianco/events/''
       [(''content-type'', ''application/json''),
        (''authorization'', ''bearer '' @ sentry_token env)]
       [(''environment'', PStr ''production''),
        (''field'', PStr ''transaction''),
        (''field'', PStr ''p50()''),
        (''field'', PStr ''p95()''),
        (''field'', PStr ''failure_rate()''),
        (''field'', PStr ''count_unique(user)''),
        (''field'', PStr ''count(user)''),
        (''per_page'', PInt (int limit)),
        (''project'', PStr ''1867351''),
        (''query'', PStr ''transaction.duration:<15m event.type:transaction''),
        (''sort'', PStr ''-p95''),
        (''statsPeriod'', PStr stats_period)]"

definition report_header :: "string \<Rightarrow> nat \<Rightarrow> string" where
  "report_header stats_period limit =
     ''API performance report from Sentry, last '' @ stats_period
       @ '',  sorted by p95 descending, limit '' @ str_nat limit"

definition chunk_say :: "string list \<Rightarrow> string \<Rightarrow> nat \<Rightarrow> call" where
  "chunk_say rendered thread_ts i =
     Say [Section_fields (take 10 (drop (i * 10) rendered))]
         (''(chunk '' @ str_nat i @ '')'') (Some thread_ts) None"

text \<open>The loop of lines 125 to 135, over the values of \<open>i\<close>: it stops when \<^verbatim>\<open>say\<close> raises.\<close>

fun say_chunks ::
  "'v sentry_env \<Rightarrow> string list \<Rightarrow> string \<Rightarrow> nat list \<Rightarrow> sentry_bot \<Rightarrow> exn option \<times> sentry_bot" where
  "say_chunks env rendered thread_ts [] st = (None, st)"
| "say_chunks env rendered thread_ts (i # js) st =
     (case sentry_slack env (chunk_say rendered thread_ts i) of
        Some e \<Rightarrow> (Some e, sentry_emit (chunk_say rendered thread_ts i) st)
      | None \<Rightarrow> say_chunks env rendered thread_ts js (sentry_emit (chunk_say rendered thread_ts i) st))"

text \<open>
  Lines 107 to 136: the header with the first page, then one message per further page, then
  the counter.
\<close>

definition send_report ::
  "'v sentry_env \<Rightarrow> string list \<Rightarrow> string \<Rightarrow> nat \<Rightarrow> string \<Rightarrow> sentry_bot \<Rightarrow> exn option \<times> sentry_bot" where
  "send_report env rendered stats_period limit thread_ts st =
     (let first_page = Say [Section_mrkdwn (report_header stats_period limit), Divider,
                            Section_fields (take 10 rendered)]
                           (report_header stats_period limit) (Some thread_ts) None;
          st1 = sentry_emit first_page st
      in case sentry_slack env first_page of
           Some e \<Rightarrow> (Some e, st1)
         | None \<Rightarrow>
             (case say_chunks env rendered thread_ts [1 ..< (length rendered + 9) div 10] st1 of
                (Some e, st2) \<Rightarrow> (Some e, st2)
              | (None, st2) \<Rightarrow>
                  (None, st2\<lparr>sent_performance_count := sent_performance_count st2 + 1\<rparr>)))"

definition report_api_performance ::
  "'v sentry_env \<Rightarrow> message \<Rightarrow> sentry_bot \<Rightarrow> exn option \<times> sentry_bot" where
  "report_api_performance env m st =
     (if \<not> py_in ''api'' (msg_text m) then (None, st)
      else
        (let thread_ts = (case msg_thread_ts m of Some t \<Rightarrow> t | None \<Rightarrow> msg_ts m);
             stats_period = (case stats_period_re_search (msg_text m) of
                               Some tok \<Rightarrow> tok | None \<Rightarrow> ''24h'');
             limit = 20;
             st1 = sentry_emit (performance_query env stats_period limit) st
         in case sentry_requests env (performance_query env stats_period limit) of
              Inl e \<Rightarrow> (Some e, st1)
            | Inr r \<Rightarrow>
                if \<not> ok r then
                  (let reply = Say [] (if resp_text r = [] then ''<empty response>'' else resp_text r)
                                   (Some thread_ts) None
                   in (sentry_slack env reply, sentry_emit reply st1))
                else
                  (case bind_exn (json_data r) (map_exn (render_item env)) of
                     Inl e \<Rightarrow> (Some e, st1)
                   | Inr rendered \<Rightarrow> send_report env rendered stats_period limit thread_ts st1)))"


section \<open>The vocabulary of the properties\<close>

text \<open>The changed lines of a diff: the lines whose first character is a plus or a minus.\<close>

definition changed_lines :: "string \<Rightarrow> string list" where
  "changed_lines t =
     filter (\<lambda>line. case line of [] \<Rightarrow> False | c # _ \<Rightarrow> c = CHR ''+'' \<or> c = CHR ''-'')
       (py_split newline t)"

text \<open>
  The resource a callback asks to approve: the subscripts of lines 118, 119 and of the
  f-strings, in the order the handler first makes them.
\<close>

definition approval_target :: "pyval \<Rightarrow> exn + (pyval \<times> pyval)" where
  "approval_target body =
     bind_exn (py_getitem body ''message'') (\<lambda>message.
     bind_exn (callback_metadata message) (\<lambda>metadata.
     bind_exn (py_getitem metadata ''repository'') (\<lambda>repository.
     bind_exn (py_getitem metadata ''number'') (\<lambda>number. Inr (repository, number)))))"

text \<open>
  Credential resolution (line 143): the secret named after the id of the user who clicked,
  asked from the secret store.
\<close>

definition credential :: "approve_env \<Rightarrow> pyval \<Rightarrow> exn + string" where
  "credential env body =
     bind_exn (bind_exn (py_getitem body ''user'') (\<lambda>u. py_getitem u ''id'')) (\<lambda>uid.
       get_secret env (''github_token_'' @ py_str (repr_dict env) uid))"

text \<open>
  The approval of pull request \<open>number\<close> of \<open>repository\<close>: an \<^verbatim>\<open>APPROVE\<close> review
  posted to GitHub with the user's token.
\<close>

definition approval_post :: "string \<Rightarrow> string \<Rightarrow> string \<Rightarrow> call" where
  "approval_post repository number token =
     Requests_post (''https://api.github.com/repos/'' @ repository @ ''/pulls/'' @ number @ ''/reviews'')
       [(''Authorization'', ''token '' @ token)]
       (PDict [(''event'', PStr ''APPROVE'')])"

text \<open>The two-block reply that quotes the target and the detail.\<close>

definition failure_reply :: "string \<Rightarrow> string \<Rightarrow> call" where
  "failure_reply target detail =
     Say [Section_mrkdwn (''Failed to approve *'' @ target @ ''*:''), Section_plain detail]
         (''Failed to approve *'' @ target @ ''*'') None None"

text \<open>The atoms of \<^verbatim>\<open>pr_re\<close> before its first group, as \<open>pr_re_match\<close> has them.\<close>

abbreviation link_atoms :: "atom list" where
  "link_atoms \<equiv> map Lit ''https://github'' @ [Dot] @ map Lit ''com/athenianco/''"

text \<open>
  A pull-request link, \<^verbatim>\<open>https://github.com/athenianco/<name>/pull/<digits>\<close>: the name
  is not empty and has no slash, the digits are one or more decimal digits.
\<close>

definition repo_name_ok :: "string \<Rightarrow> bool" where
  "repo_name_ok name = (name \<noteq> [] \<and> CHR ''/'' \<notin> set name)"

definition number_ok :: "string \<Rightarrow> bool" where
  "number_ok ds = (ds \<noteq> [] \<and> list_all is_digit ds)"

definition no_digit_first :: "string \<Rightarrow> bool" where
  "no_digit_first s = (case s of [] \<Rightarrow> True | c # cs \<Rightarrow> \<not> is_digit c)"

definition pr_link :: "string \<Rightarrow> string \<Rightarrow> string" where
  "pr_link name ds = ''https://github.com/athenianco/'' @ name @ ''/pull/'' @ ds"

text \<open>
  A text contains a link when the pattern occurs in it somewhere: any character but a
  newline may stand where the link has its dot.
\<close>

definition contains_link :: "string \<Rightarrow> bool" where
  "contains_link t =
     (\<exists>pre c name ds post.
        t = pre @ ''https://github'' @ [c] @ ''com/athenianco/'' @ name @ ''/pull/'' @ ds @ post \<and>
        c \<noteq> newline \<and> repo_name_ok name \<and> number_ok ds)"

text \<open>
  A text with \<open>N\<close> links: a leading text, then \<open>N\<close> times a link and the text that
  follows it.
\<close>

fun links_text :: "string \<Rightarrow> (string \<times> string \<times> string) list \<Rightarrow> string" where
  "links_text t0 [] = t0"
| "links_text t0 ((name, ds, t) # ls) = t0 @ pr_link name ds @ links_text t ls"

text \<open>The diff blocks of an offer: those of the response, none when the request raised.\<close>

definition fetched_diff :: "approve_env \<Rightarrow> string \<Rightarrow> string \<Rightarrow> block list" where
  "fetched_diff env repo ds =
     (case requests env (diff_request env repo (int_of_digits ds)) of
        Inl e \<Rightarrow> []
      | Inr r \<Rightarrow> diff_blocks r)"

text \<open>The calls that send a message.\<close>

fun is_say :: "call \<Rightarrow> bool" where
  "is_say (Say blocks shown thread md) = True"
| "is_say c = False"

text \<open>
  The thread a report answers in: the thread of the triggering message, or the message
  itself when it is not in a thread.
\<close>

definition reply_thread :: "message \<Rightarrow> string" where
  "reply_thread m = (case msg_thread_ts m of Some t \<Rightarrow> t | None \<Rightarrow> msg_ts m)"

text \<open>
  A record of a result set and the text it is shown as: the transaction between backquotes
  and stars, then one line per field, \<^verbatim>\<open>p50\<close> and \<^verbatim>\<open>p95\<close> in seconds with
  three decimals, the failure rate with three decimals, the two counts as they are. The
  record has to carry the six fields, and \<^verbatim>\<open>float\<close> has to accept the values of the
  first three.
\<close>

definition shown_as :: "'v sentry_env \<Rightarrow> (string \<times> 'v) list \<Rightarrow> string \<Rightarrow> bool" where
  "shown_as env item shown =
     (\<exists>t a b c d e sa sb sc.
        map_of item ''transaction'' = Some t \<and>
        map_of item ''p50()'' = Some a \<and> percent_3fs_of_ms env a = Inr sa \<and>
        map_of item ''p95()'' = Some b \<and> percent_3fs_of_ms env b = Inr sb \<and>
        map_of item ''failure_rate()'' = Some c \<and> percent_3f env c = Inr sc \<and>
        map_of item ''count_unique(user)'' = Some d \<and>
        map_of item ''count(user)'' = Some e \<and>
        shown = ''*`'' @ str_value env t @ ''`*'' @ [newline]
          @ ''*p50:* '' @ sa @ [newline]
          @ ''*p95:* '' @ sb @ [newline]
          @ ''*failure_rate:* '' @ sc @ [newline]
          @ ''*count_unique(user):* '' @ str_value env d @ [newline]
          @ ''*count(user):* '' @ str_value env e)"




text \<open>The time window of a report, as lines 59 to 62 compute it.\<close>

definition stats_period_of :: "string \<Rightarrow> string" where
  "stats_period_of t = (case stats_period_re_search t of Some tok \<Rightarrow> tok | None \<Rightarrow> ''24h'')"


subsection \<open>Concrete inputs\<close>

text \<open>
  Environments of the approval bot. In the first four Slack accepts every call: GitHub
  answers 200, GitHub answers 422, the secret store raises, the connection to GitHub fails.
  In the fifth GitHub answers 200 and the Slack client raises on \<^verbatim>\<open>reactions_add\<close>.
\<close>

definition github_up :: approve_env where
  "github_up =
     \<lparr>gkwillie_token = ''g1'',
      get_secret = (\<lambda>name. Inr ''t1''),
      requests = (\<lambda>c. Inr \<lparr>ok = True, status_code = 200, resp_text = ''+a''\<rparr>),
      slack = (\<lambda>c. None),
      repr_dict = (\<lambda>kvs. ''{}'')\<rparr>"

definition github_refuses :: approve_env where
  "github_refuses =
     \<lparr>gkwillie_token = ''g1'',
      get_secret = (\<lambda>name. Inr ''t1''),
      requests = (\<lambda>c. Inr \<lparr>ok = False, status_code = 422, resp_text = ''Unprocessable''\<rparr>),
      slack = (\<lambda>c. None),
      repr_dict = (\<lambda>kvs. ''{}'')\<rparr>"

definition secret_missing :: approve_env where
  "secret_missing =
     \<lparr>gkwillie_token = ''g1'',
      get_secret = (\<lambda>name. Inl (Raised ''NotFound'' ''404 Secret not found'')),
      requests = (\<lambda>c. Inr \<lparr>ok = True, status_code = 200, resp_text = []\<rparr>),
      slack = (\<lambda>c. None),
      repr_dict = (\<lambda>kvs. ''{}'')\<rparr>"

definition github_down :: approve_env where
  "github_down =
     \<lparr>gkwillie_token = ''g1'',
      get_secret = (\<lambda>name. Inr ''t1''),
      requests = (\<lambda>c. Inl (Raised ''ConnectionError'' ''Connection refused'')),
      slack = (\<lambda>c. None),
      repr_dict = (\<lambda>kvs. ''{}'')\<rparr>"

definition reaction_refused :: approve_env where
  "reaction_refused =
     \<lparr>gkwillie_token = ''g1'',
      get_secret = (\<lambda>name. Inr ''t1''),
      requests = (\<lambda>c. Inr \<lparr>ok = True, status_code = 200, resp_text = ''+a''\<rparr>),
      slack = (\<lambda>c. case c of
                    Reactions_add channel ts reaction \<Rightarrow> Some (Raised ''SlackApiError'' ''already_reacted'')
                  | _ \<Rightarrow> None),
      repr_dict = (\<lambda>kvs. ''{}'')\<rparr>"

definition please_check :: message where
  "please_check =
     \<lparr>msg_text = ''please check https://github.com/athenianco/foo/pull/42'',
      msg_ts = ''1700000000.000100'', msg_thread_ts = None\<rparr>"

definition fresh :: bot where
  "fresh = \<lparr>calls = [], sent_count = 0, approved_count = 0\<rparr>"

definition click :: "(string \<times> pyval) list \<Rightarrow> pyval" where
  "click message =
     PDict [(''user'', PDict [(''id'', PStr ''U7'')]),
            (''channel'', PDict [(''id'', PStr ''C3'')]),
            (''message'', PDict message)]"

definition offer_message :: "(string \<times> pyval) list" where
  "offer_message =
     [(''ts'', PStr ''1700000001.000200''),
      (''metadata'', offer_metadata ''athenianco/foo'' 42 ''1700000000.000100'')]"

definition no_counts :: sentry_bot where
  "no_counts = \<lparr>sentry_calls = [], sent_performance_count = 0\<rparr>"

text \<open>
  The values of the sample result sets: the string \<^verbatim>\<open>/v1/prs\<close> and the integers
  from 0 to 4294967295. On the string, \<^verbatim>\<open>float\<close> raises \<^verbatim>\<open>ValueError\<close>. On
  an integer \<open>n\<close> of this range, \<^verbatim>\<open>float(n)\<close> is exact and
  \<^verbatim>\<open>float(n) / 1000\<close> is within a billionth of \<open>n / 1000\<close>, so that
  \<^verbatim>\<open>"%.3f" % float(n)\<close> is \<open>n\<close> followed by \<^verbatim>\<open>.000\<close>, and
  \<^verbatim>\<open>"%.3f" % (float(n) / 1000)\<close> is the quotient of \<open>n\<close> by 1000, a point and the
  three digits of the remainder.
\<close>

datatype sample = Path_v1_prs | Whole "32 word"

definition thousandths :: "nat \<Rightarrow> string" where
  "thousandths n =
     str_nat (n div 1000) @ ''.'' @ [digit_char (n div 100), digit_char (n div 10), digit_char n]"

definition not_a_float :: exn where
  "not_a_float =
     Raised ''ValueError'' (''could not convert string to float: '' @ [quote] @ ''/v1/prs'' @ [quote])"

fun sample_percent_3fs_of_ms :: "sample \<Rightarrow> exn + string" where
  "sample_percent_3fs_of_ms Path_v1_prs = Inl not_a_float"
| "sample_percent_3fs_of_ms (Whole n) = Inr (thousandths (unat n) @ ''s'')"

fun sample_percent_3f :: "sample \<Rightarrow> exn + string" where
  "sample_percent_3f Path_v1_prs = Inl not_a_float"
| "sample_percent_3f (Whole n) = Inr (str_nat (unat n) @ ''.000'')"

fun sample_str :: "sample \<Rightarrow> string" where
  "sample_str Path_v1_prs = ''/v1/prs''"
| "sample_str (Whole n) = str_nat (unat n)"

text \<open>Sentry answers every query with the result set \<open>items\<close>; Slack accepts every message.\<close>

definition sentry_with :: "(string \<times> sample) list list \<Rightarrow> sample sentry_env" where
  "sentry_with items =
     \<lparr>sentry_token = ''s1'',
      sentry_requests = (\<lambda>c. Inr \<lparr>ok = True, status_code = 200, resp_text = ''{}'', json_data = Inr items\<rparr>),
      sentry_slack = (\<lambda>c. None),
      percent_3fs_of_ms = sample_percent_3fs_of_ms,
      percent_3f = sample_percent_3f,
      str_value = sample_str\<rparr>"

definition slow_question :: message where
  "slow_question =
     \<lparr>msg_text = ''are requests slow on the api?'', msg_ts = ''1700000000.000100'', msg_thread_ts = None\<rparr>"

definition one_record :: "(string \<times> sample) list" where
  "one_record =
     [(''transaction'', Path_v1_prs), (''p50()'', Whole 120), (''p95()'', Whole 900),
      (''failure_rate()'', Whole 0), (''count_unique(user)'', Whole 7), (''count(user)'', Whole 31)]"

definition one_field :: string where
  "one_field = ''*`/v1/prs`*'' @ [newline] @ ''*p50:* 0.120s'' @ [newline] @ ''*p95:* 0.900s'' @ [newline]
     @ ''*failure_rate:* 0.000'' @ [newline] @ ''*count_unique(user):* 7'' @ [newline]
     @ ''*count(user):* 31''"

section \<open>Properties of the approval bot\<close>

lemma bind_exn_simps [simp]:
  "bind_exn (Inl e) f = Inl e" "bind_exn (Inr x) f = f x"
  by (simp_all add: bind_exn_def)

lemma bind_exn_Inl_iff:
  "bind_exn r f = Inl e \<longleftrightarrow> r = Inl e \<or> (\<exists>x. r = Inr x \<and> f x = Inl e)"
  by (cases r) simp_all

subsection \<open>Decimal numbers\<close>

text \<open>\<^verbatim>\<open>int(str(n))\<close> is \<open>n\<close>, and \<^verbatim>\<open>str(n)\<close> is made of digits.\<close>

lemma digit_val_digit_char: "digit_val (digit_char d) = d mod 10"
proof -
  have "d mod 10 < 10" by simp
  then have "d mod 10 \<in> set [0 ..< 10]" by simp
  then have "digit_val (''0123456789'' ! (d mod 10)) = d mod 10"
    unfolding upt_conv_Cons by (auto simp: digit_val_def upt_conv_Cons)
  then show ?thesis by (simp add: digit_char_def)
qed

lemma foldl_digits_snoc:
  "foldl (\<lambda>acc c. 10 * acc + digit_val c) 0 (ds @ [d])
     = 10 * foldl (\<lambda>acc c. 10 * acc + digit_val c) 0 ds + digit_val d"
  by simp

lemma int_of_digits_str_nat: "int_of_digits (str_nat n) = int n"
proof (induction n rule: str_nat.induct)
  case (1 n)
  show ?case
  proof (cases "n < 10")
    case True
    then show ?thesis
      by (subst str_nat.simps) (simp add: int_of_digits_def digit_val_digit_char)
  next
    case False
    with 1 have "foldl (\<lambda>acc c. 10 * acc + digit_val c) 0 (str_nat (n div 10)) = n div 10"
      by (simp add: int_of_digits_def)
    with False show ?thesis
      by (subst str_nat.simps) (simp add: int_of_digits_def digit_val_digit_char)
  qed
qed

lemma is_digit_digit_char: "is_digit (digit_char d)"
proof -
  have "d mod 10 < length ''0123456789''" by simp
  then have "''0123456789'' ! (d mod 10) \<in> set ''0123456789''" by (rule nth_mem)
  then show ?thesis by (simp only: is_digit_def digit_char_def)
qed

subsection \<open>Substrings\<close>

lemma starts_with_iff: "starts_with p s \<longleftrightarrow> (\<exists>post. s = p @ post)"
  by (induction p s rule: starts_with.induct) auto

lemma py_in_iff: "py_in needle hay \<longleftrightarrow> (\<exists>pre post. hay = pre @ needle @ post)"
proof (induction hay)
  case Nil
  then show ?case by auto
next
  case (Cons c cs)
  show ?case
  proof
    assume "py_in needle (c # cs)"
    then consider "starts_with needle (c # cs)" | "py_in needle cs" by auto
    then show "\<exists>pre post. c # cs = pre @ needle @ post"
    proof cases
      case 1
      then obtain post where "c # cs = needle @ post" by (auto simp: starts_with_iff)
      then have "c # cs = [] @ needle @ post" by simp
      then show ?thesis by blast
    next
      case 2
      with Cons obtain pre post where "cs = pre @ needle @ post" by blast
      then have "c # cs = (c # pre) @ needle @ post" by simp
      then show ?thesis by blast
    qed
  next
    assume "\<exists>pre post. c # cs = pre @ needle @ post"
    then obtain pre post where e: "c # cs = pre @ needle @ post" by blast
    show "py_in needle (c # cs)"
    proof (cases pre)
      case Nil
      with e have "starts_with needle (c # cs)" by (auto simp: starts_with_iff)
      then show ?thesis by simp
    next
      case (Cons p ps)
      with e have "cs = ps @ needle @ post" by simp
      with Cons.IH have "py_in needle cs" by blast
      then show ?thesis by simp
    qed
  qed
qed

subsection \<open>The diff preview\<close>

lemma py_split_no_sep: "l \<in> set (py_split sep s) \<Longrightarrow> sep \<notin> set l"
  by (induction s arbitrary: l) (auto split: list.splits if_splits)

lemma py_split_append_line:
  "sep \<notin> set x \<Longrightarrow> py_split sep (x @ sep # s) = x # py_split sep s"
  by (induction x) (auto split: list.splits)

lemma py_split_line: "sep \<notin> set x \<Longrightarrow> py_split sep x = [x]"
  by (induction x) (auto split: list.splits)

lemma py_split_join:
  "ls \<noteq> [] \<Longrightarrow> \<forall>l \<in> set ls. sep \<notin> set l \<Longrightarrow> py_split sep (py_join [sep] ls) = ls"
proof (induction "[sep]" ls rule: py_join.induct)
  case 1
  then show ?case by simp
next
  case (2 x)
  then show ?case by (simp add: py_split_line)
next
  case (3 x y ys)
  then show ?case by (simp add: py_split_append_line)
qed

lemma changed_filter:
  "filter (\<lambda>line. take 1 line = ''+'' \<or> take 1 line = ''-'') ls =
   filter (\<lambda>line. case line of [] \<Rightarrow> False | c # _ \<Rightarrow> c = CHR ''+'' \<or> c = CHR ''-'') ls"
  by (rule filter_cong) (auto split: list.splits)

lemma diff_lines_changed:
  "diff_lines t = (if length (changed_lines t) > 8 then take 8 (changed_lines t) @ [''...'']
                   else changed_lines t)"
  by (simp only: diff_lines_def changed_lines_def changed_filter Let_def)

lemma ellipsis_not_changed: "''...'' \<notin> set (changed_lines t)"
  by (auto simp: changed_lines_def)

lemma changed_lines_no_newline: "l \<in> set (changed_lines t) \<Longrightarrow> newline \<notin> set l"
  unfolding changed_lines_def using py_split_no_sep[of l newline t] by simp

text \<open>
  C6. When the diff was fetched (\<^verbatim>\<open>response.ok\<close>), the offer carries one code block,
  three backquotes around a body. Split at newlines, the body is: the first eight changed
  lines and then the marker \<^verbatim>\<open>...\<close> when the diff has more than eight changed lines;
  all the changed lines, and nothing else, when it has between one and eight; and the body
  is empty when the diff has no changed line. Lines that are not changed lines never
  appear.
\<close>

theorem diff_block_changed_lines:
  assumes "ok r"
  shows "(\<exists>body. diff_blocks r = [Section_mrkdwn (''```'' @ body @ ''```'')] \<and>
            (if length (changed_lines (resp_text r)) > 8
             then py_split newline body = take 8 (changed_lines (resp_text r)) @ [''...'']
             else if changed_lines (resp_text r) = [] then body = []
             else py_split newline body = changed_lines (resp_text r))) \<and>
         ''...'' \<notin> set (changed_lines (resp_text r))"
proof
  let ?ch = "changed_lines (resp_text r)"
  let ?body = "py_join [newline] (diff_lines (resp_text r))"
  have blk: "diff_blocks r = [Section_mrkdwn (''```'' @ ?body @ ''```'')]"
    using assms by (simp add: diff_blocks_def)
  have nl: "\<forall>l \<in> set ?ch. newline \<notin> set l"
    using changed_lines_no_newline by blast
  show "\<exists>body. diff_blocks r = [Section_mrkdwn (''```'' @ body @ ''```'')] \<and>
            (if length ?ch > 8 then py_split newline body = take 8 ?ch @ [''...'']
             else if ?ch = [] then body = []
             else py_split newline body = ?ch)"
  proof (cases "length ?ch > 8")
    case True
    have "\<forall>l \<in> set (take 8 ?ch @ [''...'']). newline \<notin> set l"
      using nl by (auto dest: in_set_takeD)
    then have "py_split newline (py_join [newline] (take 8 ?ch @ [''...''])) = take 8 ?ch @ [''...'']"
      by (intro py_split_join) simp_all
    with True blk show ?thesis by (simp add: diff_lines_changed)
  next
    case False
    show ?thesis
    proof (cases "?ch = []")
      case True
      with False blk show ?thesis by (simp add: diff_lines_changed)
    next
      case ne: False
      from ne nl have "py_split newline (py_join [newline] ?ch) = ?ch"
        by (intro py_split_join) simp_all
      with False ne blk show ?thesis by (simp add: diff_lines_changed)
    qed
  qed
next
  show "''...'' \<notin> set (changed_lines (resp_text r))"
    by (rule ellipsis_not_changed)
qed

theorem diff_block_changed_lines_witness:
  "ok \<lparr>ok = True, status_code = 200, resp_text = '' ctx'' @ [newline] @ ''-old'' @ [newline] @ ''+new''\<rparr> \<and>
   (\<exists>body. diff_blocks \<lparr>ok = True, status_code = 200,
                        resp_text = '' ctx'' @ [newline] @ ''-old'' @ [newline] @ ''+new''\<rparr>
              = [Section_mrkdwn (''```'' @ body @ ''```'')] \<and>
           py_split newline body = [''-old'', ''+new''])"
proof -
  let ?r = "\<lparr>ok = True, status_code = 200, resp_text = '' ctx'' @ [newline] @ ''-old'' @ [newline] @ ''+new''\<rparr>"
  have h: "ok ?r" by simp
  have c: "changed_lines (resp_text ?r) = [''-old'', ''+new'']"
    by (simp add: changed_lines_def)
  show ?thesis using h diff_block_changed_lines[OF h] unfolding c by simp
qed

subsection \<open>The trigger pattern\<close>

lemma match_atoms_length: "match_atoms as s = Some r \<Longrightarrow> length s = length as + length r"
  by (induction as s rule: match_atoms.induct) (auto split: if_splits)

lemma match_atoms_append_long:
  "length as \<le> length u \<Longrightarrow> match_atoms as (u @ w) = map_option (\<lambda>r. r @ w) (match_atoms as u)"
  by (induction as u rule: match_atoms.induct) auto

lemma match_atoms_append_short:
  "length u < length as \<Longrightarrow> match_atoms as (u @ w) \<noteq> None \<Longrightarrow>
   match_atoms (drop (length u) as) w \<noteq> None"
  by (induction as u rule: match_atoms.induct) (auto split: if_splits)

lemma link_atoms_straddle:
  "list_all (\<lambda>k. match_atoms (drop k link_atoms) (''https://'' @ X) = None) [1 ..< 30]"
  by (simp add: upt_conv_Cons)

lemma pull_atoms_straddle:
  "list_all (\<lambda>k. match_atoms (drop k (map Lit ''/pull/'')) (''https://'' @ X) = None) [1 ..< 6]"
  by (simp add: upt_conv_Cons)

lemma takeWhile_append_stop:
  "w \<noteq> [] \<Longrightarrow> \<not> P (hd w) \<Longrightarrow>
   takeWhile P (xs @ w) = takeWhile P xs \<and> dropWhile P (xs @ w) = dropWhile P xs @ w"
  by (induction xs) (auto simp: neq_Nil_conv)

lemma h_not_digit: "\<not> is_digit CHR ''h''"
  by (simp add: is_digit_def)

text \<open>
  A match never runs into a following \<^verbatim>\<open>https://\<close>: appending such a text to \<open>u\<close>
  changes no match that starts in \<open>u\<close>, and adds none. So the matches of a text before a
  link are those of the text alone.
\<close>

lemma pr_re_match_before_link:
  assumes "u \<noteq> []"
  shows "pr_re_match (u @ ''https://'' @ X) =
         map_option (\<lambda>(repo, ds, r). (repo, ds, r @ ''https://'' @ X)) (pr_re_match u)"
proof -
  let ?W = "''https://'' @ X"
  let ?slash = "\<lambda>c. c \<noteq> CHR ''/''"
  show ?thesis
  proof (cases "length u < 30")
    case True
    have none_u: "match_atoms link_atoms u = None"
    proof (rule ccontr)
      assume "match_atoms link_atoms u \<noteq> None"
      then obtain r where "match_atoms link_atoms u = Some r" by auto
      from match_atoms_length[OF this] True show False by simp
    qed
    have none_w: "match_atoms link_atoms (u @ ?W) = None"
    proof (rule ccontr)
      assume a: "match_atoms link_atoms (u @ ?W) \<noteq> None"
      from True have "length u < length link_atoms" by simp
      from match_atoms_append_short[OF this a]
      have b: "match_atoms (drop (length u) link_atoms) ?W \<noteq> None" .
      from assms True have "length u \<in> set [1 ..< 30]" by (cases u) auto
      with link_atoms_straddle[of X] have "match_atoms (drop (length u) link_atoms) ?W = None"
        unfolding list_all_iff by blast
      with b show False by simp
    qed
    from none_u none_w show ?thesis by (simp add: pr_re_match_def)
  next
    case False
    then have "length link_atoms \<le> length u" by simp
    from match_atoms_append_long[OF this]
    have pw: "match_atoms link_atoms (u @ ?W) = map_option (\<lambda>r. r @ ?W) (match_atoms link_atoms u)" .
    show ?thesis
    proof (cases "match_atoms link_atoms u")
      case None
      with pw show ?thesis by (simp add: pr_re_match_def)
    next
      case (Some u')
      with pw have pw': "match_atoms link_atoms (u @ ?W) = Some (u' @ ?W)" by simp
      show ?thesis
      proof (cases "CHR ''/'' \<in> set u'")
        case True
        then have tw: "takeWhile ?slash (u' @ ?W) = takeWhile ?slash u'"
          and dw: "dropWhile ?slash (u' @ ?W) = dropWhile ?slash u' @ ?W"
          by (simp_all add: takeWhile_append1 dropWhile_append1)
        let ?d = "dropWhile ?slash u'"
        from True have dne: "?d \<noteq> []" by (auto simp: dropWhile_eq_Nil_conv)
        show ?thesis
        proof (cases "length ?d < 6")
          case short: True
          have none_d: "match_atoms (map Lit ''/pull/'') ?d = None"
          proof (rule ccontr)
            assume "match_atoms (map Lit ''/pull/'') ?d \<noteq> None"
            then obtain r where "match_atoms (map Lit ''/pull/'') ?d = Some r" by auto
            from match_atoms_length[OF this] short show False by simp
          qed
          have none_dw: "match_atoms (map Lit ''/pull/'') (?d @ ?W) = None"
          proof (rule ccontr)
            assume a: "match_atoms (map Lit ''/pull/'') (?d @ ?W) \<noteq> None"
            from short have "length ?d < length (map Lit ''/pull/'')" by simp
            from match_atoms_append_short[OF this a]
            have b: "match_atoms (drop (length ?d) (map Lit ''/pull/'')) ?W \<noteq> None" .
            from dne short have "length ?d \<in> set [1 ..< 6]" by (cases ?d) auto
            with pull_atoms_straddle[of X]
            have "match_atoms (drop (length ?d) (map Lit ''/pull/'')) ?W = None"
              unfolding list_all_iff by blast
            with b show False by simp
          qed
          from Some pw' tw dw none_d none_dw show ?thesis
            by (simp add: pr_re_match_def Let_def)
        next
          case long: False
          then have "length (map Lit ''/pull/'') \<le> length ?d" by simp
          from match_atoms_append_long[OF this]
          have qw: "match_atoms (map Lit ''/pull/'') (?d @ ?W)
                      = map_option (\<lambda>r. r @ ?W) (match_atoms (map Lit ''/pull/'') ?d)" .
          have stop: "\<And>s3. takeWhile is_digit (s3 @ ?W) = takeWhile is_digit s3 \<and>
                           dropWhile is_digit (s3 @ ?W) = dropWhile is_digit s3 @ ?W"
            by (rule takeWhile_append_stop) (simp_all add: h_not_digit)
          show ?thesis
          proof (cases "match_atoms (map Lit ''/pull/'') ?d")
            case None
            with Some pw' tw dw qw show ?thesis
              by (simp add: pr_re_match_def Let_def)
          next
            case s3: (Some s3)
            with qw have "match_atoms (map Lit ''/pull/'') (?d @ ?W) = Some (s3 @ ?W)" by simp
            with Some pw' tw dw s3 stop[of s3] show ?thesis
              by (simp add: pr_re_match_def Let_def)
          qed
        qed
      next
        case False
        then have all: "\<forall>c \<in> set u'. ?slash c" by auto
        then have tw: "takeWhile ?slash (u' @ ?W) = u' @ ''https:''"
          and dw: "dropWhile ?slash (u' @ ?W) = ''//'' @ X"
          by (simp_all add: takeWhile_append2 dropWhile_append2)
        from all have tu: "takeWhile ?slash u' = u'" and du: "dropWhile ?slash u' = []"
          by simp_all
        from Some pw' tw dw show ?thesis
          by (simp add: pr_re_match_def Let_def tu du)
      qed
    qed
  qed
qed

lemma pr_re_finditer_before_link:
  "pr_re_finditer (t @ ''https://'' @ X) = pr_re_finditer t @ pr_re_finditer (''https://'' @ X)"
proof (induction t rule: pr_re_finditer.induct)
  case (1 s)
  show ?case
  proof (cases s)
    case Nil
    then have "pr_re_finditer s = []"
      by (subst pr_re_finditer.simps) (simp add: pr_re_match_def)
    with Nil show ?thesis by simp
  next
    case (Cons c cs)
    then have ne: "s \<noteq> []" by simp
    note eq = pr_re_match_before_link[OF ne, of X]
    show ?thesis
    proof (cases "pr_re_match s")
      case None
      with eq have n: "pr_re_match (s @ ''https://'' @ X) = None" by simp
      have "pr_re_finditer (s @ ''https://'' @ X) = pr_re_finditer (cs @ ''https://'' @ X)"
        using n Cons by (subst pr_re_finditer.simps) simp
      moreover have "pr_re_finditer s = pr_re_finditer cs"
        using None Cons by (subst pr_re_finditer.simps) simp
      ultimately show ?thesis using 1(1)[OF None Cons] by simp
    next
      case (Some m)
      with eq have m: "pr_re_match (s @ ''https://'' @ X)
                      = Some (fst m, fst (snd m), snd (snd m) @ ''https://'' @ X)"
        by (cases m) simp
      have "pr_re_finditer (s @ ''https://'' @ X)
              = (fst m, fst (snd m)) # pr_re_finditer (snd (snd m) @ ''https://'' @ X)"
        using m by (subst pr_re_finditer.simps) simp
      moreover have "pr_re_finditer s = (fst m, fst (snd m)) # pr_re_finditer (snd (snd m))"
        using Some by (subst pr_re_finditer.simps) simp
      ultimately show ?thesis using 1(2)[OF Some] by simp
    qed
  qed
qed

lemma match_atoms_Lit_iff: "match_atoms (map Lit p) s = Some r \<longleftrightarrow> s = p @ r"
proof (induction p arbitrary: s)
  case Nil
  then show ?case by auto
next
  case (Cons a p)
  then show ?case by (cases s) auto
qed

lemma match_atoms_append_atoms:
  "match_atoms (as @ bs) s = (case match_atoms as s of None \<Rightarrow> None | Some r \<Rightarrow> match_atoms bs r)"
  by (induction as s rule: match_atoms.induct) auto

lemma match_lit_dot_lit_iff:
  "match_atoms (map Lit a @ [Dot] @ map Lit b) s = Some r \<longleftrightarrow>
     (\<exists>c. c \<noteq> newline \<and> s = a @ c # b @ r)"
proof
  assume m: "match_atoms (map Lit a @ [Dot] @ map Lit b) s = Some r"
  then obtain r1 where r1: "match_atoms (map Lit a) s = Some r1"
    and m1: "match_atoms ([Dot] @ map Lit b) r1 = Some r"
    by (auto simp only: match_atoms_append_atoms split: option.splits)
  from r1 have s: "s = a @ r1" by (simp only: match_atoms_Lit_iff)
  from m1 obtain c r2 where c: "r1 = c # r2" "c \<noteq> newline"
    and m2: "match_atoms (map Lit b) r2 = Some r"
    by (cases r1) (auto split: if_splits)
  from m2 have "r2 = b @ r" by (simp only: match_atoms_Lit_iff)
  with s c show "\<exists>c. c \<noteq> newline \<and> s = a @ c # b @ r" by auto
next
  assume "\<exists>c. c \<noteq> newline \<and> s = a @ c # b @ r"
  then obtain c where c: "c \<noteq> newline" and s: "s = a @ c # b @ r" by blast
  have 1: "match_atoms (map Lit a) s = Some (c # b @ r)"
    using s by (simp only: match_atoms_Lit_iff)
  have 2: "match_atoms (map Lit b) (b @ r) = Some r"
    by (simp only: match_atoms_Lit_iff)
  show "match_atoms (map Lit a @ [Dot] @ map Lit b) s = Some r"
    using c 1 2 by (simp add: match_atoms_append_atoms)
qed

lemma link_atoms_iff:
  "match_atoms link_atoms s = Some s1 \<longleftrightarrow>
     (\<exists>c. c \<noteq> newline \<and> s = ''https://github'' @ c # ''com/athenianco/'' @ s1)"
  by (rule match_lit_dot_lit_iff)

lemma no_digit_first_dropWhile: "no_digit_first (dropWhile is_digit s)"
  by (induction s) (auto simp: no_digit_first_def)

lemma takeWhile_digits: "list_all is_digit ds \<Longrightarrow> no_digit_first rest \<Longrightarrow>
  takeWhile is_digit (ds @ rest) = ds \<and> dropWhile is_digit (ds @ rest) = rest"
  by (induction ds) (auto simp: no_digit_first_def split: list.splits)

lemma takeWhile_name: "CHR ''/'' \<notin> set name \<Longrightarrow>
  takeWhile (\<lambda>c. c \<noteq> CHR ''/'') (name @ CHR ''/'' # rest) = name \<and>
  dropWhile (\<lambda>c. c \<noteq> CHR ''/'') (name @ CHR ''/'' # rest) = CHR ''/'' # rest"
  by (induction name) auto

text \<open>
  \<open>pr_re_match\<close> agrees with the pattern read as a language. A match at the start of
  \<open>s\<close> splits \<open>s\<close> into the link prefix (with any character but a newline for the dot),
  a name without a slash, \<^verbatim>\<open>/pull/\<close>, digits, and a rest that does not begin with a
  digit; and every text that begins with such a split is matched, with all the digits that
  follow \<^verbatim>\<open>/pull/\<close>.
\<close>

lemma pr_re_match_Some:
  assumes "pr_re_match s = Some (repo, ds, rest)"
  shows "\<exists>c name. c \<noteq> newline \<and>
           s = ''https://github'' @ c # ''com/athenianco/'' @ name @ ''/pull/'' @ ds @ rest \<and>
           repo = ''athenianco/'' @ name \<and> repo_name_ok name \<and> number_ok ds \<and>
           no_digit_first rest"
proof -
  let ?slash = "\<lambda>c. c \<noteq> CHR ''/''"
  from assms obtain s1 where s1: "match_atoms link_atoms s = Some s1"
    by (auto simp: pr_re_match_def split: option.splits)
  then obtain c where c: "c \<noteq> newline" and s: "s = ''https://github'' @ c # ''com/athenianco/'' @ s1"
    unfolding link_atoms_iff by blast
  from assms s1 obtain s3 where name: "takeWhile ?slash s1 \<noteq> []"
    and s3: "match_atoms (map Lit ''/pull/'') (dropWhile ?slash s1) = Some s3"
    and ds: "ds = takeWhile is_digit s3" "ds \<noteq> []"
    and rest: "rest = dropWhile is_digit s3"
    and repo: "repo = ''athenianco/'' @ takeWhile ?slash s1"
    by (auto simp: pr_re_match_def Let_def split: option.splits if_splits)
  from s3 have "dropWhile ?slash s1 = ''/pull/'' @ s3" by (simp only: match_atoms_Lit_iff)
  with takeWhile_dropWhile_id[of ?slash s1]
  have s1': "s1 = takeWhile ?slash s1 @ ''/pull/'' @ s3" by simp
  from ds rest takeWhile_dropWhile_id[of is_digit s3] have s3': "s3 = ds @ rest" by simp
  have "CHR ''/'' \<notin> set (takeWhile ?slash s1)" by (auto dest: set_takeWhileD)
  with name have n: "repo_name_ok (takeWhile ?slash s1)" by (simp add: repo_name_ok_def)
  from ds have d: "number_ok ds"
    by (auto simp: number_ok_def list_all_iff dest: set_takeWhileD)
  from rest have r: "no_digit_first rest" by (simp add: no_digit_first_dropWhile)
  have "s = ''https://github'' @ c # ''com/athenianco/'' @ takeWhile ?slash s1 @ ''/pull/'' @ ds @ rest"
    using s s1' s3' by simp
  with c repo n d r show ?thesis by blast
qed

lemma pr_re_match_link_general:
  assumes "c \<noteq> newline" "repo_name_ok name" "number_ok ds"
  shows "pr_re_match (''https://github'' @ c # ''com/athenianco/'' @ name @ ''/pull/'' @ ds @ rest)
           = Some (''athenianco/'' @ name, takeWhile is_digit (ds @ rest), dropWhile is_digit (ds @ rest))"
proof -
  let ?s = "''https://github'' @ c # ''com/athenianco/'' @ name @ ''/pull/'' @ ds @ rest"
  have 1: "match_atoms link_atoms ?s = Some (name @ ''/pull/'' @ ds @ rest)"
    unfolding link_atoms_iff using assms(1) by blast
  from assms(2) have 2: "takeWhile (\<lambda>c. c \<noteq> CHR ''/'') (name @ ''/pull/'' @ ds @ rest) = name"
    and 3: "dropWhile (\<lambda>c. c \<noteq> CHR ''/'') (name @ ''/pull/'' @ ds @ rest) = ''/pull/'' @ ds @ rest"
    using takeWhile_name[of name "''pull/'' @ ds @ rest"] by (simp_all add: repo_name_ok_def)
  have 4: "match_atoms (map Lit ''/pull/'') (''/pull/'' @ ds @ rest) = Some (ds @ rest)"
    by (simp only: match_atoms_Lit_iff)
  from assms(3) obtain d ds' where "ds = d # ds'" "is_digit d"
    by (cases ds) (auto simp: number_ok_def)
  then have 5: "takeWhile is_digit (ds @ rest) \<noteq> []" by simp
  from assms(2) have 6: "name \<noteq> []" by (simp add: repo_name_ok_def)
  show ?thesis
    unfolding pr_re_match_def 1 option.case Let_def 2 3 4 using 5 6 by simp
qed

lemma pr_re_match_link:
  assumes "c \<noteq> newline" "repo_name_ok name" "number_ok ds" "no_digit_first rest"
  shows "pr_re_match (''https://github'' @ c # ''com/athenianco/'' @ name @ ''/pull/'' @ ds @ rest)
           = Some (''athenianco/'' @ name, ds, rest)"
  using pr_re_match_link_general[OF assms(1-3), of rest] takeWhile_digits[of ds rest] assms(3,4)
  by (simp add: number_ok_def)

lemma pr_link_shape:
  "pr_link name ds @ rest = ''https://github'' @ CHR ''.'' # ''com/athenianco/'' @ name @ ''/pull/'' @ ds @ rest"
  "pr_link name ds @ rest = ''https://'' @ (''github.com/athenianco/'' @ name @ ''/pull/'' @ ds @ rest)"
  by (simp_all add: pr_link_def)

lemma pr_re_finditer_None:
  "pr_re_match s = None \<Longrightarrow>
   pr_re_finditer s = (case s of [] \<Rightarrow> [] | c # cs \<Rightarrow> pr_re_finditer cs)"
  by (subst pr_re_finditer.simps) simp

lemma pr_re_finditer_Some:
  "pr_re_match s = Some (repo, ds, rest) \<Longrightarrow> pr_re_finditer s = (repo, ds) # pr_re_finditer rest"
  by (subst pr_re_finditer.simps) simp

lemma pr_re_finditer_link:
  assumes "repo_name_ok name" "number_ok ds" "no_digit_first rest"
  shows "pr_re_finditer (pr_link name ds @ rest) = (''athenianco/'' @ name, ds) # pr_re_finditer rest"
proof -
  have "pr_re_match (pr_link name ds @ rest) = Some (''athenianco/'' @ name, ds, rest)"
    unfolding pr_link_shape(1) using assms by (intro pr_re_match_link) simp_all
  then show ?thesis by (rule pr_re_finditer_Some)
qed

lemma pr_re_finditer_sound:
  "(repo, ds) \<in> set (pr_re_finditer s) \<Longrightarrow>
   \<exists>pre c name post.
     s = pre @ ''https://github'' @ c # ''com/athenianco/'' @ name @ ''/pull/'' @ ds @ post \<and>
     c \<noteq> newline \<and> repo = ''athenianco/'' @ name \<and> repo_name_ok name \<and> number_ok ds"
proof (induction s rule: pr_re_finditer.induct)
  case (1 s)
  show ?case
  proof (cases "pr_re_match s")
    case None
    show ?thesis
    proof (cases s)
      case Nil
      with None 1(3) show ?thesis by (simp add: pr_re_finditer_None)
    next
      case (Cons c cs)
      with None 1(3) have "(repo, ds) \<in> set (pr_re_finditer cs)"
        by (simp add: pr_re_finditer_None)
      from 1(1)[OF None Cons this] obtain pre c' name post where
        "cs = pre @ ''https://github'' @ c' # ''com/athenianco/'' @ name @ ''/pull/'' @ ds @ post"
        and r: "c' \<noteq> newline" "repo = ''athenianco/'' @ name" "repo_name_ok name" "number_ok ds"
        by blast
      with Cons have "s = (c # pre) @ ''https://github'' @ c' # ''com/athenianco/'' @ name @ ''/pull/'' @ ds @ post"
        by simp
      with r show ?thesis by blast
    qed
  next
    case (Some m)
    obtain repo' ds' rest where m: "m = (repo', ds', rest)" by (cases m) auto
    from pr_re_match_Some[of s repo' ds' rest] Some m obtain c name where
      s: "s = ''https://github'' @ c # ''com/athenianco/'' @ name @ ''/pull/'' @ ds' @ rest"
      and r: "c \<noteq> newline" "repo' = ''athenianco/'' @ name" "repo_name_ok name" "number_ok ds'"
      by auto
    from Some m 1(3) consider "(repo, ds) = (repo', ds')" | "(repo, ds) \<in> set (pr_re_finditer rest)"
      by (auto simp: pr_re_finditer_Some)
    then show ?thesis
    proof cases
      case 1
      with s have "s = [] @ ''https://github'' @ c # ''com/athenianco/'' @ name @ ''/pull/'' @ ds @ rest"
        by simp
      with 1 r show ?thesis by blast
    next
      case 2
      from Some m have "snd (snd m) = rest" by simp
      with "1.IH"(2)[OF Some] 2 obtain pre c' name' post where
        "rest = pre @ ''https://github'' @ c' # ''com/athenianco/'' @ name' @ ''/pull/'' @ ds @ post"
        and r': "c' \<noteq> newline" "repo = ''athenianco/'' @ name'" "repo_name_ok name'" "number_ok ds"
        by auto
      with s have "s = (''https://github'' @ c # ''com/athenianco/'' @ name @ ''/pull/'' @ ds' @ pre)
                         @ ''https://github'' @ c' # ''com/athenianco/'' @ name' @ ''/pull/'' @ ds @ post"
        by simp
      with r' show ?thesis by blast
    qed
  qed
qed

lemma contains_link_found:
  assumes "c \<noteq> newline" "repo_name_ok name" "number_ok ds"
  shows "pr_re_finditer (pre @ ''https://github'' @ c # ''com/athenianco/'' @ name @ ''/pull/'' @ ds @ post) \<noteq> []"
proof (induction pre)
  case Nil
  from pr_re_match_link_general[OF assms, of post] show ?case
    by (simp add: pr_re_finditer_Some)
next
  case (Cons p ps)
  show ?case
  proof (cases "pr_re_match ((p # ps) @ ''https://github'' @ c # ''com/athenianco/'' @ name @ ''/pull/'' @ ds @ post)")
    case None
    with Cons show ?thesis by (simp add: pr_re_finditer_None)
  next
    case (Some m)
    then show ?thesis by (cases m) (simp add: pr_re_finditer_Some)
  qed
qed

text \<open>\<^verbatim>\<open>finditer\<close> finds nothing exactly in the texts that contain no link.\<close>

lemma pr_re_finditer_Nil_iff: "pr_re_finditer t = [] \<longleftrightarrow> \<not> contains_link t"
proof
  assume e: "pr_re_finditer t = []"
  show "\<not> contains_link t"
  proof
    assume "contains_link t"
    then obtain pre c name ds post where
      "t = pre @ ''https://github'' @ [c] @ ''com/athenianco/'' @ name @ ''/pull/'' @ ds @ post"
      "c \<noteq> newline" "repo_name_ok name" "number_ok ds"
      unfolding contains_link_def by blast
    with contains_link_found[of c name ds pre post] e show False by simp
  qed
next
  assume n: "\<not> contains_link t"
  show "pr_re_finditer t = []"
  proof (rule ccontr)
    assume "pr_re_finditer t \<noteq> []"
    then obtain repo ds where "(repo, ds) \<in> set (pr_re_finditer t)"
      by (cases "pr_re_finditer t") auto
    from pr_re_finditer_sound[OF this] obtain pre c name post where
      "t = pre @ ''https://github'' @ c # ''com/athenianco/'' @ name @ ''/pull/'' @ ds @ post"
      "c \<noteq> newline" "repo_name_ok name" "number_ok ds"
      by blast
    then have "t = pre @ ''https://github'' @ [c] @ ''com/athenianco/'' @ name @ ''/pull/'' @ ds @ post \<and>
               c \<noteq> newline \<and> repo_name_ok name \<and> number_ok ds"
      by simp
    then have "contains_link t" unfolding contains_link_def by blast
    with n show False by simp
  qed
qed

lemma no_digit_first_links_text:
  assumes "no_digit_first t"
  shows "no_digit_first (links_text t ls)"
proof (cases ls)
  case Nil
  with assms show ?thesis by simp
next
  case (Cons l ls')
  obtain name ds t' where "l = (name, ds, t')" by (cases l) auto
  with Cons assms show ?thesis
    by (cases t) (simp_all add: no_digit_first_def pr_link_def is_digit_def)
qed

lemma pr_re_finditer_links_text:
  assumes "\<not> contains_link t0"
    and "\<forall>(name, ds, t) \<in> set ls. repo_name_ok name \<and> number_ok ds \<and> \<not> contains_link t \<and> no_digit_first t"
  shows "pr_re_finditer (links_text t0 ls) = map (\<lambda>(name, ds, t). (''athenianco/'' @ name, ds)) ls"
  using assms
proof (induction ls arbitrary: t0)
  case Nil
  then show ?case by (simp add: pr_re_finditer_Nil_iff)
next
  case (Cons l ls)
  obtain name ds t where l: "l = (name, ds, t)" by (cases l) auto
  with Cons.prems have ok: "repo_name_ok name" "number_ok ds" "\<not> contains_link t" "no_digit_first t"
    and rest: "\<forall>(name, ds, t) \<in> set ls. repo_name_ok name \<and> number_ok ds \<and> \<not> contains_link t \<and> no_digit_first t"
    by auto
  have "pr_re_finditer (t0 @ pr_link name ds @ links_text t ls)
          = pr_re_finditer t0 @ pr_re_finditer (pr_link name ds @ links_text t ls)"
    unfolding pr_link_shape(2) by (rule pr_re_finditer_before_link)
  also have "pr_re_finditer t0 = []"
    using Cons.prems(1) by (simp add: pr_re_finditer_Nil_iff)
  also have "pr_re_finditer (pr_link name ds @ links_text t ls)
               = (''athenianco/'' @ name, ds) # pr_re_finditer (links_text t ls)"
    using ok(1,2) no_digit_first_links_text[OF ok(4)] by (rule pr_re_finditer_link)
  also have "pr_re_finditer (links_text t ls) = map (\<lambda>(name, ds, t). (''athenianco/'' @ name, ds)) ls"
    using ok(3) rest by (rule Cons.IH)
  finally show ?case using l by simp
qed

subsection \<open>The offers\<close>

lemma offer_step_fetched:
  "requests env (diff_request env (fst grp) (int_of_digits (snd grp))) = Inr r \<Longrightarrow>
   slack env (offer (fst grp) (int_of_digits (snd grp)) m (diff_blocks r)) = None \<Longrightarrow>
   offer_step env m grp st =
     (None, st\<lparr>calls := calls st @ [diff_request env (fst grp) (int_of_digits (snd grp)),
                                     offer (fst grp) (int_of_digits (snd grp)) m (diff_blocks r)],
               sent_count := sent_count st + 1\<rparr>)"
  by (simp add: offer_step_def emit_def Let_def)

lemma offer_step_refused:
  "requests env (diff_request env (fst grp) (int_of_digits (snd grp))) = Inr r \<Longrightarrow>
   slack env (offer (fst grp) (int_of_digits (snd grp)) m (diff_blocks r)) = Some e \<Longrightarrow>
   offer_step env m grp st =
     (Some e, st\<lparr>calls := calls st @ [diff_request env (fst grp) (int_of_digits (snd grp)),
                                       offer (fst grp) (int_of_digits (snd grp)) m (diff_blocks r)]\<rparr>)"
  by (simp add: offer_step_def emit_def Let_def)

lemma offer_step_raises:
  "requests env (diff_request env (fst grp) (int_of_digits (snd grp))) = Inl e \<Longrightarrow>
   offer_step env m grp st =
     (Some e, st\<lparr>calls := calls st @ [diff_request env (fst grp) (int_of_digits (snd grp))]\<rparr>)"
  by (simp add: offer_step_def emit_def Let_def)

lemma offer_loop_says:
  "\<exists>new. calls (snd (offer_loop env m grps st)) = calls st @ new \<and>
     (\<forall>c \<in> set new. is_say c \<longrightarrow>
        (\<exists>grp \<in> set grps. \<exists>diff. c = offer (fst grp) (int_of_digits (snd grp)) m diff))"
proof (induction grps arbitrary: st)
  case Nil
  then show ?case by simp
next
  case (Cons grp grps)
  let ?req = "diff_request env (fst grp) (int_of_digits (snd grp))"
  show ?case
  proof (cases "requests env ?req")
    case (Inl e)
    from offer_step_raises[OF Inl, of m st]
    have "calls (snd (offer_loop env m (grp # grps) st)) = calls st @ [?req]" by simp
    moreover have "\<not> is_say ?req" by (simp add: diff_request_def)
    ultimately show ?thesis by auto
  next
    case (Inr r)
    let ?offer = "offer (fst grp) (int_of_digits (snd grp)) m (diff_blocks r)"
    show ?thesis
    proof (cases "slack env ?offer")
      case (Some e)
      from offer_step_refused[OF Inr Some, of st]
      have "calls (snd (offer_loop env m (grp # grps) st)) = calls st @ [?req, ?offer]" by simp
      moreover have "\<forall>c \<in> set [?req, ?offer].
          is_say c \<longrightarrow> (\<exists>g \<in> set (grp # grps). \<exists>diff. c = offer (fst g) (int_of_digits (snd g)) m diff)"
        by (auto simp: diff_request_def)
      ultimately show ?thesis by blast
    next
      case None
      let ?st = "st\<lparr>calls := calls st @ [?req, ?offer], sent_count := sent_count st + 1\<rparr>"
      from offer_step_fetched[OF Inr None, of st]
      have step: "offer_loop env m (grp # grps) st = offer_loop env m grps ?st" by simp
      from Cons.IH[of ?st] obtain new where
        new: "calls (snd (offer_loop env m grps ?st)) = calls ?st @ new"
        and says: "\<forall>c \<in> set new. is_say c \<longrightarrow>
          (\<exists>grp \<in> set grps. \<exists>diff. c = offer (fst grp) (int_of_digits (snd grp)) m diff)"
        by blast
      have "calls (snd (offer_loop env m (grp # grps) st)) = calls st @ ([?req, ?offer] @ new)"
        using step new by simp
      moreover have "\<forall>c \<in> set ([?req, ?offer] @ new).
          is_say c \<longrightarrow> (\<exists>g \<in> set (grp # grps). \<exists>diff. c = offer (fst g) (int_of_digits (snd g)) m diff)"
        using says by (auto simp: diff_request_def)
      ultimately show ?thesis by blast
    qed
  qed
qed

lemma offer_loop_fetched:
  assumes "\<forall>c. \<exists>r. requests env c = Inr r"
    and "\<forall>c. slack env c = None"
  shows "\<exists>new. offer_loop env m grps st =
           (None, st\<lparr>calls := calls st @ new, sent_count := sent_count st + length grps\<rparr>) \<and>
         filter is_say new =
           map (\<lambda>grp. offer (fst grp) (int_of_digits (snd grp)) m (fetched_diff env (fst grp) (snd grp))) grps"
proof (induction grps arbitrary: st)
  case Nil
  have "offer_loop env m [] st = (None, st\<lparr>calls := calls st @ [], sent_count := sent_count st + length ([] :: (string \<times> string) list)\<rparr>)"
    by simp
  then show ?case by (intro exI[of _ "[]"]) simp
next
  case (Cons grp grps)
  let ?req = "diff_request env (fst grp) (int_of_digits (snd grp))"
  from assms(1) obtain r where r: "requests env ?req = Inr r" by blast
  let ?offer = "offer (fst grp) (int_of_digits (snd grp)) m (diff_blocks r)"
  let ?st = "st\<lparr>calls := calls st @ [?req, ?offer], sent_count := sent_count st + 1\<rparr>"
  from assms(2) have "slack env ?offer = None" by simp
  from offer_step_fetched[OF r this, of st]
  have step: "offer_loop env m (grp # grps) st = offer_loop env m grps ?st" by simp
  from Cons.IH[of ?st] obtain new where
    run: "offer_loop env m grps ?st =
            (None, ?st\<lparr>calls := calls ?st @ new, sent_count := sent_count ?st + length grps\<rparr>)"
    and says: "filter is_say new =
           map (\<lambda>grp. offer (fst grp) (int_of_digits (snd grp)) m (fetched_diff env (fst grp) (snd grp))) grps"
    by blast
  have "offer_loop env m (grp # grps) st =
          (None, st\<lparr>calls := calls st @ ([?req, ?offer] @ new),
                    sent_count := sent_count st + length (grp # grps)\<rparr>)"
    using step run by simp
  moreover have "filter is_say ([?req, ?offer] @ new) =
      map (\<lambda>grp. offer (fst grp) (int_of_digits (snd grp)) m (fetched_diff env (fst grp) (snd grp))) (grp # grps)"
    using says r by (simp add: diff_request_def[of env] offer_def fetched_diff_def)
  ultimately show ?case by blast
qed

lemma same_owner:
  assumes "CHR ''/'' \<notin> set a" "CHR ''/'' \<notin> set b" "a @ CHR ''/'' # x = b @ CHR ''/'' # y"
  shows "a = b"
proof -
  have "takeWhile (\<lambda>c. c \<noteq> CHR ''/'') (a @ CHR ''/'' # x) = a"
    using takeWhile_name[OF assms(1)] by simp
  moreover have "takeWhile (\<lambda>c. c \<noteq> CHR ''/'') (b @ CHR ''/'' # y) = b"
    using takeWhile_name[OF assms(2)] by simp
  ultimately show ?thesis using assms(3) by simp
qed

lemma other_owner_no_match:
  assumes "owner \<noteq> ''athenianco''" "CHR ''/'' \<notin> set owner"
  shows "pr_re_match (''https://github.com/'' @ owner @ ''/'' @ rest) = None"
proof (rule ccontr)
  assume "pr_re_match (''https://github.com/'' @ owner @ ''/'' @ rest) \<noteq> None"
  then obtain repo ds r where "pr_re_match (''https://github.com/'' @ owner @ ''/'' @ rest) = Some (repo, ds, r)"
    by auto
  from pr_re_match_Some[OF this] obtain c name where
    "''https://github.com/'' @ owner @ ''/'' @ rest
       = ''https://github'' @ c # ''com/athenianco/'' @ name @ ''/pull/'' @ ds @ r"
    by blast
  then have "owner @ CHR ''/'' # rest = ''athenianco'' @ CHR ''/'' # (name @ ''/pull/'' @ ds @ r)"
    by simp
  from same_owner[OF assms(2) _ this] have "owner = ''athenianco''" by simp
  with assms(1) show False by simp
qed

lemma please_check_matches:
  "pr_re_finditer (msg_text please_check) = [(''athenianco/foo'', ''42'')]"
proof -
  have t: "msg_text please_check = links_text ''please check '' [(''foo'', ''42'', [])]"
    by (simp add: please_check_def pr_link_def)
  have "pr_re_finditer ''please check '' = []"
    by (simp add: pr_re_finditer.simps pr_re_match_def)
  then have "\<not> contains_link ''please check ''" by (simp add: pr_re_finditer_Nil_iff)
  moreover have "\<forall>(name, ds, t) \<in> set [(''foo'', ''42'', [])].
      repo_name_ok name \<and> number_ok ds \<and> \<not> contains_link t \<and> no_digit_first t"
    using pr_re_finditer_Nil_iff[of "[]"]
    by (simp add: repo_name_ok_def number_ok_def is_digit_def no_digit_first_def
          pr_re_finditer.simps pr_re_match_def)
  ultimately show ?thesis unfolding t by (subst pr_re_finditer_links_text) simp_all
qed

lemma str_int_42: "str_int 42 = ''42''"
  by (simp add: str_int_def str_nat.simps digit_char_def)

lemma int_of_digits_42: "int_of_digits ''42'' = 42"
  by (simp add: int_of_digits_def digit_val_def)

text \<open>The first end-to-end example of the specification: one link, one offer.\<close>

lemma please_check_offer:
  "message_url github_up please_check fresh =
     (None,
      \<lparr>calls = [Requests_get ''https://api.github.com/repos/athenianco/foo/pulls/42''
                  [(''Authorization'', ''token g1''), (''Accept'', ''application/vnd.github.v3.diff'')] [],
                Say [Section_mrkdwn ''Approve this PR? *athenianco/foo#42*'',
                     Actions [Button ''approve'' ''primary'' ''Approve''],
                     Section_mrkdwn ''```+a```'']
                    ''Approve this PR? athenianco/foo#42'' None
                    (Some (offer_metadata ''athenianco/foo'' 42 ''1700000000.000100''))],
       sent_count = 1, approved_count = 0\<rparr>)"
proof -
  have ts: "msg_ts please_check = ''1700000000.000100''" by (simp add: please_check_def)
  show ?thesis
    by (simp add: message_url_def please_check_matches offer_step_def emit_def Let_def
          int_of_digits_42 str_int_42 diff_request_def github_up_def fresh_def offer_def
          diff_blocks_def diff_lines_def ts)
qed

text \<open>
  C10. Whatever the text and whatever GitHub answers, every message the handler sends is an
  offer for a repository \<^verbatim>\<open>athenianco/<name>\<close>, the name without a slash, that the
  text names in a link; and at a link under another owner the pattern does not match.
\<close>

theorem offers_only_for_athenianco:
  "(\<exists>new. calls (snd (message_url env m st)) = calls st @ new \<and>
      (\<forall>c \<in> set new. is_say c \<longrightarrow>
         (\<exists>name ds diff. c = offer (''athenianco/'' @ name) (int_of_digits ds) m diff \<and>
            repo_name_ok name \<and> number_ok ds \<and>
            py_in (''/athenianco/'' @ name @ ''/pull/'' @ ds) (msg_text m)))) \<and>
   (owner \<noteq> ''athenianco'' \<and> CHR ''/'' \<notin> set owner \<longrightarrow>
      pr_re_match (''https://github.com/'' @ owner @ ''/'' @ rest) = None)"
proof (intro conjI impI)
  from offer_loop_says[of env m "pr_re_finditer (msg_text m)" st] obtain new where
    new: "calls (snd (message_url env m st)) = calls st @ new"
    and says: "\<forall>c \<in> set new. is_say c \<longrightarrow>
        (\<exists>grp \<in> set (pr_re_finditer (msg_text m)). \<exists>diff. c = offer (fst grp) (int_of_digits (snd grp)) m diff)"
    unfolding message_url_def by blast
  have "\<forall>c \<in> set new. is_say c \<longrightarrow>
         (\<exists>name ds diff. c = offer (''athenianco/'' @ name) (int_of_digits ds) m diff \<and>
            repo_name_ok name \<and> number_ok ds \<and>
            py_in (''/athenianco/'' @ name @ ''/pull/'' @ ds) (msg_text m))"
  proof (intro ballI impI)
    fix c assume "c \<in> set new" "is_say c"
    with says obtain repo ds diff where g: "(repo, ds) \<in> set (pr_re_finditer (msg_text m))"
      and c: "c = offer repo (int_of_digits ds) m diff"
      by fastforce
    from pr_re_finditer_sound[OF g] obtain pre d name post where
      t: "msg_text m = pre @ ''https://github'' @ d # ''com/athenianco/'' @ name @ ''/pull/'' @ ds @ post"
      and r: "repo = ''athenianco/'' @ name" "repo_name_ok name" "number_ok ds"
      by blast
    from t have "msg_text m = (pre @ ''https://github'' @ d # ''com'') @ (''/athenianco/'' @ name @ ''/pull/'' @ ds) @ post"
      by simp
    then have "py_in (''/athenianco/'' @ name @ ''/pull/'' @ ds) (msg_text m)"
      unfolding py_in_iff by blast
    with c r show "\<exists>name ds diff. c = offer (''athenianco/'' @ name) (int_of_digits ds) m diff \<and>
            repo_name_ok name \<and> number_ok ds \<and>
            py_in (''/athenianco/'' @ name @ ''/pull/'' @ ds) (msg_text m)"
      by blast
  qed
  with new show "\<exists>new. calls (snd (message_url env m st)) = calls st @ new \<and>
      (\<forall>c \<in> set new. is_say c \<longrightarrow>
         (\<exists>name ds diff. c = offer (''athenianco/'' @ name) (int_of_digits ds) m diff \<and>
            repo_name_ok name \<and> number_ok ds \<and>
            py_in (''/athenianco/'' @ name @ ''/pull/'' @ ds) (msg_text m)))"
    by blast
next
  assume "owner \<noteq> ''athenianco'' \<and> CHR ''/'' \<notin> set owner"
  then show "pr_re_match (''https://github.com/'' @ owner @ ''/'' @ rest) = None"
    using other_owner_no_match[of owner rest] by blast
qed

theorem offers_only_for_athenianco_witness:
  "''torvalds'' \<noteq> ''athenianco'' \<and> CHR ''/'' \<notin> set ''torvalds'' \<and>
   pr_re_match ''https://github.com/torvalds/linux/pull/1'' = None \<and>
   is_say (last (calls (snd (message_url github_up please_check fresh)))) \<and>
   (\<exists>name ds diff.
      last (calls (snd (message_url github_up please_check fresh)))
        = offer (''athenianco/'' @ name) (int_of_digits ds) please_check diff \<and>
      repo_name_ok name \<and> number_ok ds \<and>
      py_in (''/athenianco/'' @ name @ ''/pull/'' @ ds) (msg_text please_check))"
proof -
  let ?run = "message_url github_up please_check fresh"
  from offers_only_for_athenianco[of github_up please_check fresh "''torvalds''" "''linux/pull/1''"]
  obtain new where new: "calls (snd ?run) = calls fresh @ new"
    and says: "\<forall>c \<in> set new. is_say c \<longrightarrow>
         (\<exists>name ds diff. c = offer (''athenianco/'' @ name) (int_of_digits ds) please_check diff \<and>
            repo_name_ok name \<and> number_ok ds \<and>
            py_in (''/athenianco/'' @ name @ ''/pull/'' @ ds) (msg_text please_check))"
    and other: "pr_re_match ''https://github.com/torvalds/linux/pull/1'' = None"
    by auto
  have sent: "is_say (last (calls (snd ?run)))" "calls (snd ?run) \<noteq> []"
    by (simp_all add: please_check_offer)
  from new sent(2) have "new \<noteq> []" "last (calls (snd ?run)) = last new"
    by (simp_all add: fresh_def)
  then have "last (calls (snd ?run)) \<in> set new" by simp
  with says sent(1) other show ?thesis by simp
qed

text \<open>
  The offers of a text with links. When the text is a leading text and then \<open>N\<close> links,
  each followed by a text, where none of these texts contains a link and none of the texts
  after a link begins with a digit, when every diff request is answered (with any status)
  and Slack accepts every message, the handler returns normally, sends exactly the \<open>N\<close>
  offers, in order, each for the repository and number of its link, and increments
  \<^verbatim>\<open>sent_offers\<close> by \<open>N\<close>.
\<close>

lemma message_url_offers:
  assumes "\<not> contains_link t0"
    and "\<forall>(name, ds, t) \<in> set ls. repo_name_ok name \<and> number_ok ds \<and> \<not> contains_link t \<and> no_digit_first t"
    and "msg_text m = links_text t0 ls"
    and "\<forall>c. \<exists>r. requests env c = Inr r"
    and "\<forall>c. slack env c = None"
  shows "\<exists>new. message_url env m st =
           (None, st\<lparr>calls := calls st @ new, sent_count := sent_count st + length ls\<rparr>) \<and>
         filter is_say new =
           map (\<lambda>(name, ds, t). offer (''athenianco/'' @ name) (int_of_digits ds) m
                  (fetched_diff env (''athenianco/'' @ name) ds)) ls"
proof -
  have f: "pr_re_finditer (msg_text m) = map (\<lambda>(name, ds, t). (''athenianco/'' @ name, ds)) ls"
    unfolding assms(3) using assms(1,2) by (rule pr_re_finditer_links_text)
  from offer_loop_fetched[OF assms(4,5), of m "pr_re_finditer (msg_text m)" st] obtain new where
    run: "message_url env m st =
           (None, st\<lparr>calls := calls st @ new,
                     sent_count := sent_count st + length (pr_re_finditer (msg_text m))\<rparr>)"
    and says: "filter is_say new =
           map (\<lambda>grp. offer (fst grp) (int_of_digits (snd grp)) m (fetched_diff env (fst grp) (snd grp)))
             (pr_re_finditer (msg_text m))"
    unfolding message_url_def by blast
  from run f have "message_url env m st =
           (None, st\<lparr>calls := calls st @ new, sent_count := sent_count st + length ls\<rparr>)"
    by simp
  moreover from says f have "filter is_say new =
           map (\<lambda>(name, ds, t). offer (''athenianco/'' @ name) (int_of_digits ds) m
                  (fetched_diff env (''athenianco/'' @ name) ds)) ls"
    by (simp add: case_prod_unfold comp_def)
  ultimately show ?thesis by blast
qed

text \<open>
  C2 asks for one offer per link of the text. \<^verbatim>\<open>requests.get\<close> (line 54) is called
  outside any \<^verbatim>\<open>try\<close>: when it raises, the exception escapes the handler, and the
  offer of that link and of every later link is not sent. Here the text has one link and
  the request raises: no offer is sent and \<^verbatim>\<open>sent_offers\<close> stays at 0.
\<close>

theorem diff_fetch_raises_no_offer:
  "message_url github_down please_check fresh =
     (Some (Raised ''ConnectionError'' ''Connection refused''),
      \<lparr>calls = [Requests_get ''https://api.github.com/repos/athenianco/foo/pulls/42''
                  [(''Authorization'', ''token g1''), (''Accept'', ''application/vnd.github.v3.diff'')] []],
       sent_count = 0, approved_count = 0\<rparr>)"
  by (simp add: message_url_def please_check_matches offer_step_def emit_def Let_def
        int_of_digits_42 str_int_42 diff_request_def github_down_def fresh_def)

subsection \<open>The callback\<close>

lemma fail_reply:
  "py_getitem metadata ''repository'' = Inr repository \<Longrightarrow>
   py_getitem metadata ''number'' = Inr number \<Longrightarrow>
   fail env metadata reason st =
     (slack env (failure_reply (py_str (repr_dict env) repository @ ''#''
                                  @ py_str (repr_dict env) number) reason),
      emit (failure_reply (py_str (repr_dict env) repository @ ''#''
                             @ py_str (repr_dict env) number) reason) st)"
  by (simp add: fail_def failure_reply_def Let_def)

lemma fail_escapes:
  "bind_exn (py_getitem metadata ''repository'') (\<lambda>repository.
     bind_exn (py_getitem metadata ''number'') (\<lambda>number. Inr (repository, number))) = Inl e \<Longrightarrow>
   fail env metadata reason st = (Some e, st)"
  by (auto simp: fail_def bind_exn_Inl_iff split: sum.splits)

lemma approve_request_needs_target:
  "bind_exn (py_getitem metadata ''repository'') (\<lambda>repository.
     bind_exn (py_getitem metadata ''number'') (\<lambda>number. Inr (repository, number))) = Inl e \<Longrightarrow>
   \<exists>e'. approve_request env body metadata st = (Inl e', st)"
  by (auto simp: approve_request_def bind_exn_Inl_iff split: sum.splits)

text \<open>
  The \<^verbatim>\<open>try\<close> statement of a callback that gives the resource to approve: credential
  resolution, then the request.
\<close>

lemma approve_request_unresolved:
  "credential env body = Inl e \<Longrightarrow> approve_request env body metadata st = (Inl e, st)"
  by (auto simp: approve_request_def credential_def bind_exn_Inl_iff split: sum.splits)

lemma approve_request_posted:
  "py_getitem metadata ''repository'' = Inr repository \<Longrightarrow>
   py_getitem metadata ''number'' = Inr number \<Longrightarrow>
   credential env body = Inr token \<Longrightarrow>
   approve_request env body metadata st =
     (requests env (approval_post (py_str (repr_dict env) repository)
                      (py_str (repr_dict env) number) token),
      emit (approval_post (py_str (repr_dict env) repository)
              (py_str (repr_dict env) number) token) st)"
  by (auto simp: approve_request_def credential_def approve_call_def approval_post_def
        bind_exn_def split: sum.splits)

lemma approval_target_Inr:
  "approval_target body = Inr (repository, number) \<Longrightarrow>
   \<exists>message metadata.
     py_getitem body ''message'' = Inr message \<and> callback_metadata message = Inr metadata \<and>
     py_getitem metadata ''repository'' = Inr repository \<and>
     py_getitem metadata ''number'' = Inr number"
  by (auto simp: approval_target_def bind_exn_def split: sum.splits)

lemma offer_message_target:
  "py_getitem (click offer_message) ''message'' = Inr (PDict offer_message)"
  "callback_metadata (PDict offer_message) =
     Inr (PDict [(''repository'', PStr ''athenianco/foo''), (''number'', PInt 42),
                 (''ts'', PStr ''1700000000.000100'')])"
  "approval_target (click offer_message) = Inr (PStr ''athenianco/foo'', PInt 42)"
  by (simp_all add: click_def offer_message_def callback_metadata_def offer_metadata_def
        approval_target_def)

lemma click_credential:
  "credential env (click message) = get_secret env ''github_token_U7''"
  by (simp add: credential_def click_def)

text \<open>
  C1, as the claim states it, fails: a callback whose message carries no metadata is
  acknowledged, and the \<^verbatim>\<open>KeyError\<close> of line 119 escapes the handler with no reply
  sent.
\<close>

theorem callback_without_metadata_counterexample:
  "action_approve github_up (click [(''ts'', PStr ''1700000001.000200'')]) fresh
     = (Some (KeyError ''metadata''), \<lparr>calls = [Ack], sent_count = 0, approved_count = 0\<rparr>)"
  by (simp add: action_approve_def click_def callback_metadata_def fresh_def emit_def)

text \<open>
  C1, as the code has it. A callback whose body does not give the resource to approve
  (no message, no metadata, no event payload, or a payload without repository or number)
  is acknowledged and nothing else: the lookup error escapes the handler, no reply is
  sent, nothing is posted, reacted to or deleted, and the counters keep their values. No
  default stands in for a missing field.
\<close>

theorem undecodable_callback_escapes:
  assumes "approval_target body = Inl e"
  shows "action_approve env body st = (Some e, st\<lparr>calls := calls st @ [Ack]\<rparr>)"
proof (cases "py_getitem body ''message''")
  case (Inl e1)
  with assms show ?thesis
    by (simp add: approval_target_def action_approve_def emit_def)
next
  case message: (Inr message)
  show ?thesis
  proof (cases "callback_metadata message")
    case (Inl e1)
    with assms message show ?thesis
      by (simp add: approval_target_def action_approve_def emit_def)
  next
    case metadata: (Inr metadata)
    from assms message metadata have t: "bind_exn (py_getitem metadata ''repository'') (\<lambda>repository.
       bind_exn (py_getitem metadata ''number'') (\<lambda>number. Inr (repository, number))) = Inl e"
      by (simp add: approval_target_def)
    from approve_request_needs_target[OF t] obtain e' where
      "approve_request env body metadata (emit Ack st) = (Inl e', emit Ack st)" by blast
    with message metadata fail_escapes[OF t] show ?thesis
      by (simp add: action_approve_def emit_def)
  qed
qed

theorem undecodable_callback_escapes_witness:
  "approval_target (click [(''ts'', PStr ''1700000001.000200''),
                           (''metadata'', PDict [(''event_type'', PStr ''approve_offer''),
                              (''event_payload'', PDict [(''repository'', PStr ''athenianco/foo'')])])])
     = Inl (KeyError ''number'') \<and>
   action_approve secret_missing
     (click [(''ts'', PStr ''1700000001.000200''),
             (''metadata'', PDict [(''event_type'', PStr ''approve_offer''),
                (''event_payload'', PDict [(''repository'', PStr ''athenianco/foo'')])])]) fresh
     = (Some (KeyError ''number''), \<lparr>calls = [Ack], sent_count = 0, approved_count = 0\<rparr>)"
proof -
  let ?b = "click [(''ts'', PStr ''1700000001.000200''),
                           (''metadata'', PDict [(''event_type'', PStr ''approve_offer''),
                              (''event_payload'', PDict [(''repository'', PStr ''athenianco/foo'')])])]"
  have h: "approval_target ?b = Inl (KeyError ''number'')"
    by (simp add: approval_target_def click_def callback_metadata_def)
  show ?thesis
    using h undecodable_callback_escapes[OF h, of secret_missing fresh]
    by (simp add: fresh_def)
qed

text \<open>
  The run of a callback that gives the resource to approve, by the outcome of its
  \<^verbatim>\<open>try\<close> statement: credential resolution raises, the request raises, the response
  is not a success. In each the handler ends with the call that sends the failure reply.
\<close>

lemma unresolved_credential_reply:
  assumes "approval_target body = Inr (repository, number)"
    and "credential env body = Inl e"
  shows "action_approve env body st =
           (slack env (failure_reply (py_str (repr_dict env) repository @ ''#''
                                        @ py_str (repr_dict env) number)
                         (exn_name e @ '': '' @ exn_str e)),
            st\<lparr>calls := calls st @
                  [Ack, failure_reply (py_str (repr_dict env) repository @ ''#''
                                         @ py_str (repr_dict env) number)
                          (exn_name e @ '': '' @ exn_str e)]\<rparr>)"
proof -
  from approval_target_Inr[OF assms(1)] obtain message metadata where
    t: "py_getitem body ''message'' = Inr message" "callback_metadata message = Inr metadata"
       "py_getitem metadata ''repository'' = Inr repository"
       "py_getitem metadata ''number'' = Inr number"
    by blast
  from approve_request_unresolved[OF assms(2)]
  have "approve_request env body metadata (emit Ack st) = (Inl e, emit Ack st)" .
  with t show ?thesis
    by (simp add: action_approve_def fail_reply emit_def)
qed

lemma refused_post_reply:
  assumes "approval_target body = Inr (repository, number)"
    and "credential env body = Inr token"
    and "review = approval_post (py_str (repr_dict env) repository)
                    (py_str (repr_dict env) number) token"
    and "(requests env review = Inl e \<and> detail = exn_name e @ '': '' @ exn_str e) \<or>
         (requests env review = Inr r \<and> \<not> ok r \<and> detail = resp_text r)"
  shows "action_approve env body st =
           (slack env (failure_reply (py_str (repr_dict env) repository @ ''#''
                                        @ py_str (repr_dict env) number) detail),
            st\<lparr>calls := calls st @
                  [Ack, review,
                   failure_reply (py_str (repr_dict env) repository @ ''#''
                                    @ py_str (repr_dict env) number) detail]\<rparr>)"
proof -
  from approval_target_Inr[OF assms(1)] obtain message metadata where
    t: "py_getitem body ''message'' = Inr message" "callback_metadata message = Inr metadata"
       "py_getitem metadata ''repository'' = Inr repository"
       "py_getitem metadata ''number'' = Inr number"
    by blast
  from approve_request_posted[OF t(3,4) assms(2)] assms(3)
  have a: "approve_request env body metadata (emit Ack st) =
             (requests env review, emit review (emit Ack st))" by simp
  from assms(4) show ?thesis
  proof
    assume "requests env review = Inl e \<and> detail = exn_name e @ '': '' @ exn_str e"
    with a t show ?thesis by (simp add: action_approve_def fail_reply emit_def)
  next
    assume "requests env review = Inr r \<and> \<not> ok r \<and> detail = resp_text r"
    with a t show ?thesis by (simp add: action_approve_def fail_reply emit_def)
  qed
qed

text \<open>
  C3, as the claim states it, fails: here the secret store raises for a callback whose
  event payload has no repository. The exception is caught, but \<^verbatim>\<open>fail\<close> subscripts
  the payload before it calls \<^verbatim>\<open>say\<close>: the \<^verbatim>\<open>KeyError\<close> escapes the handler and
  no failure reply is sent.
\<close>

theorem failed_approval_without_repository_counterexample:
  "credential secret_missing
     (click [(''ts'', PStr ''1700000001.000200''),
             (''metadata'', PDict [(''event_type'', PStr ''approve_offer''),
                (''event_payload'', PDict [(''number'', PInt 42),
                                           (''ts'', PStr ''1700000000.000100'')])])])
     = Inl (Raised ''NotFound'' ''404 Secret not found'') \<and>
   action_approve secret_missing
     (click [(''ts'', PStr ''1700000001.000200''),
             (''metadata'', PDict [(''event_type'', PStr ''approve_offer''),
                (''event_payload'', PDict [(''number'', PInt 42),
                                           (''ts'', PStr ''1700000000.000100'')])])]) fresh
     = (Some (KeyError ''repository''), \<lparr>calls = [Ack], sent_count = 0, approved_count = 0\<rparr>)"
  by (simp add: credential_def action_approve_def approve_request_def fail_def click_def
        callback_metadata_def secret_missing_def fresh_def emit_def)

text \<open>
  C3, as the code has it. Take a callback that gives the resource to approve, repository
  and number, and whose approval fails: credential resolution raises, or the approval
  request raises, or its response is not a success. The handler acknowledges, makes the
  request when the credential was resolved, and calls \<^verbatim>\<open>say\<close> with the two-block reply
  that quotes \<^verbatim>\<open>repository#number\<close> and the failure detail (the exception's type name
  and message, or the body of the response). It makes no other call, so nothing is
  deleted, and the counters keep their values. Sending the reply is the handler's last
  act: it returns when \<^verbatim>\<open>say\<close> returns.
\<close>

theorem failed_approval_reply:
  assumes "approval_target body = Inr (repository, number)"
    and "repo = py_str (repr_dict env) repository"
    and "num = py_str (repr_dict env) number"
    and "(\<exists>e. credential env body = Inl e \<and> posts = [] \<and>
              detail = exn_name e @ '': '' @ exn_str e) \<or>
         (\<exists>token e. credential env body = Inr token \<and>
              requests env (approval_post repo num token) = Inl e \<and>
              posts = [approval_post repo num token] \<and>
              detail = exn_name e @ '': '' @ exn_str e) \<or>
         (\<exists>token r. credential env body = Inr token \<and>
              requests env (approval_post repo num token) = Inr r \<and> \<not> ok r \<and>
              posts = [approval_post repo num token] \<and>
              detail = resp_text r)"
  shows "action_approve env body st =
           (slack env (failure_reply (repo @ ''#'' @ num) detail),
            st\<lparr>calls := calls st @ [Ack] @ posts @ [failure_reply (repo @ ''#'' @ num) detail]\<rparr>)"
proof -
  from assms(4) consider
    (secret) e where "credential env body = Inl e" "posts = []"
      "detail = exn_name e @ '': '' @ exn_str e"
  | (raised) token e where "credential env body = Inr token"
      "requests env (approval_post repo num token) = Inl e"
      "posts = [approval_post repo num token]" "detail = exn_name e @ '': '' @ exn_str e"
  | (refused) token r where "credential env body = Inr token"
      "requests env (approval_post repo num token) = Inr r" "\<not> ok r"
      "posts = [approval_post repo num token]" "detail = resp_text r"
    by blast
  then show ?thesis
  proof cases
    case secret
    from unresolved_credential_reply[OF assms(1) secret(1), of st] secret(2,3) assms(2,3)
    show ?thesis by simp
  next
    case raised
    have r: "posts = [approval_post (py_str (repr_dict env) repository)
                        (py_str (repr_dict env) number) token]"
      using raised(3) assms(2,3) by simp
    have "(requests env (approval_post (py_str (repr_dict env) repository)
                           (py_str (repr_dict env) number) token) = Inl e \<and>
           detail = exn_name e @ '': '' @ exn_str e) \<or>
          (requests env (approval_post (py_str (repr_dict env) repository)
                           (py_str (repr_dict env) number) token) = Inr undefined \<and>
           \<not> ok undefined \<and> detail = resp_text undefined)"
      using raised(2,4) assms(2,3) by simp
    from refused_post_reply[OF assms(1) raised(1) refl this, of st] r assms(2,3)
    show ?thesis by simp
  next
    case refused
    have r: "posts = [approval_post (py_str (repr_dict env) repository)
                        (py_str (repr_dict env) number) token]"
      using refused(4) assms(2,3) by simp
    have "(requests env (approval_post (py_str (repr_dict env) repository)
                           (py_str (repr_dict env) number) token) = Inl undefined \<and>
           detail = exn_name undefined @ '': '' @ exn_str undefined) \<or>
          (requests env (approval_post (py_str (repr_dict env) repository)
                           (py_str (repr_dict env) number) token) = Inr r \<and>
           \<not> ok r \<and> detail = resp_text r)"
      using refused(2,3,5) assms(2,3) by simp
    from refused_post_reply[OF assms(1) refused(1) refl this, of st] r assms(2,3)
    show ?thesis by simp
  qed
qed

theorem failed_approval_reply_witness:
  "approval_target (click offer_message) = Inr (PStr ''athenianco/foo'', PInt 42) \<and>
   credential github_refuses (click offer_message) = Inr ''t1'' \<and>
   requests github_refuses
     (Requests_post ''https://api.github.com/repos/athenianco/foo/pulls/42/reviews''
        [(''Authorization'', ''token t1'')] (PDict [(''event'', PStr ''APPROVE'')]))
     = Inr \<lparr>ok = False, status_code = 422, resp_text = ''Unprocessable''\<rparr> \<and>
   action_approve github_refuses (click offer_message) fresh =
     (None,
      \<lparr>calls = [Ack,
                Requests_post ''https://api.github.com/repos/athenianco/foo/pulls/42/reviews''
                  [(''Authorization'', ''token t1'')] (PDict [(''event'', PStr ''APPROVE'')]),
                Say [Section_mrkdwn ''Failed to approve *athenianco/foo#42*:'',
                     Section_plain ''Unprocessable'']
                    ''Failed to approve *athenianco/foo#42*'' None None],
       sent_count = 0, approved_count = 0\<rparr>)"
proof -
  let ?review = "approval_post ''athenianco/foo'' ''42'' ''t1''"
  let ?r = "\<lparr>ok = False, status_code = 422, resp_text = ''Unprocessable''\<rparr>"
  have c: "credential github_refuses (click offer_message) = Inr ''t1''"
    by (simp add: click_credential github_refuses_def)
  have q: "requests github_refuses ?review = Inr ?r" by (simp add: github_refuses_def)
  have repo: "''athenianco/foo'' = py_str (repr_dict github_refuses) (PStr ''athenianco/foo'')"
    and num: "''42'' = py_str (repr_dict github_refuses) (PInt 42)"
    by (simp_all add: str_int_42)
  have d: "(\<exists>e. credential github_refuses (click offer_message) = Inl e \<and> [?review] = [] \<and>
              ''Unprocessable'' = exn_name e @ '': '' @ exn_str e) \<or>
         (\<exists>token e. credential github_refuses (click offer_message) = Inr token \<and>
              requests github_refuses (approval_post ''athenianco/foo'' ''42'' token) = Inl e \<and>
              [?review] = [approval_post ''athenianco/foo'' ''42'' token] \<and>
              ''Unprocessable'' = exn_name e @ '': '' @ exn_str e) \<or>
         (\<exists>token r. credential github_refuses (click offer_message) = Inr token \<and>
              requests github_refuses (approval_post ''athenianco/foo'' ''42'' token) = Inr r \<and> \<not> ok r \<and>
              [?review] = [approval_post ''athenianco/foo'' ''42'' token] \<and>
              ''Unprocessable'' = resp_text r)"
    using c q by (intro disjI2) (auto intro!: exI[of _ "''t1''"] exI[of _ ?r])
  from failed_approval_reply[OF offer_message_target(3) repo num d, of fresh] c q
    offer_message_target(3)
  show ?thesis
    by (simp add: approval_post_def failure_reply_def fresh_def github_refuses_def)
qed

text \<open>
  C7, as the claim states it, fails: here the secret store raises for a callback whose
  event payload carries no repository and no number. The exception of the secret store is
  caught and no reply is rendered from it: the \<^verbatim>\<open>KeyError\<close> that \<^verbatim>\<open>fail\<close> raises
  inside the \<^verbatim>\<open>except\<close> clause propagates out of the handler.
\<close>

theorem exception_without_target_counterexample:
  "credential secret_missing
     (click [(''ts'', PStr ''1700000001.000200''),
             (''metadata'', PDict [(''event_type'', PStr ''approve_offer''),
                (''event_payload'', PDict [(''ts'', PStr ''1700000000.000100'')])])])
     = Inl (Raised ''NotFound'' ''404 Secret not found'') \<and>
   fst (action_approve secret_missing
     (click [(''ts'', PStr ''1700000001.000200''),
             (''metadata'', PDict [(''event_type'', PStr ''approve_offer''),
                (''event_payload'', PDict [(''ts'', PStr ''1700000000.000100'')])])]) fresh)
     = Some (KeyError ''repository'') \<and>
   filter is_say (calls (snd (action_approve secret_missing
     (click [(''ts'', PStr ''1700000001.000200''),
             (''metadata'', PDict [(''event_type'', PStr ''approve_offer''),
                (''event_payload'', PDict [(''ts'', PStr ''1700000000.000100'')])])]) fresh))) = []"
  by (simp add: credential_def action_approve_def approve_request_def fail_def click_def
        callback_metadata_def secret_missing_def fresh_def emit_def)

text \<open>
  C7, as the code has it. For a callback that gives the resource to approve, repository
  and number, an exception raised by credential resolution or by the approval request is
  caught: \<^verbatim>\<open>approved_prs\<close> keeps its value and the last call of the handler sends the
  failure reply whose detail is the exception's type name, a colon and its message. The
  caught exception does not leave the handler: the handler returns when \<^verbatim>\<open>say\<close>
  returns, and what leaves it otherwise is what \<^verbatim>\<open>say\<close> raised.
\<close>

theorem approval_exception_reported:
  assumes "approval_target body = Inr (repository, number)"
    and "repo = py_str (repr_dict env) repository"
    and "num = py_str (repr_dict env) number"
    and "credential env body = Inl e \<or>
         (\<exists>token. credential env body = Inr token \<and>
                  requests env (approval_post repo num token) = Inl e)"
  shows "fst (action_approve env body st) =
           slack env (failure_reply (repo @ ''#'' @ num) (exn_name e @ '': '' @ exn_str e)) \<and>
         last (calls (snd (action_approve env body st))) =
           failure_reply (repo @ ''#'' @ num) (exn_name e @ '': '' @ exn_str e) \<and>
         approved_count (snd (action_approve env body st)) = approved_count st"
proof -
  from assms(4) show ?thesis
  proof
    assume "credential env body = Inl e"
    from unresolved_credential_reply[OF assms(1) this, of st] assms(2,3)
    show ?thesis by simp
  next
    assume "\<exists>token. credential env body = Inr token \<and>
                  requests env (approval_post repo num token) = Inl e"
    then obtain token where c: "credential env body = Inr token"
      and q: "requests env (approval_post repo num token) = Inl e" by blast
    have "(requests env (approval_post (py_str (repr_dict env) repository)
                           (py_str (repr_dict env) number) token) = Inl e \<and>
           exn_name e @ '': '' @ exn_str e = exn_name e @ '': '' @ exn_str e) \<or>
          (requests env (approval_post (py_str (repr_dict env) repository)
                           (py_str (repr_dict env) number) token) = Inr undefined \<and>
           \<not> ok undefined \<and> exn_name e @ '': '' @ exn_str e = resp_text undefined)"
      using q assms(2,3) by simp
    from refused_post_reply[OF assms(1) c refl this, of st] assms(2,3)
    show ?thesis by simp
  qed
qed

theorem approval_exception_reported_witness:
  "approval_target (click offer_message) = Inr (PStr ''athenianco/foo'', PInt 42) \<and>
   credential github_down (click offer_message) = Inr ''t1'' \<and>
   requests github_down
     (Requests_post ''https://api.github.com/repos/athenianco/foo/pulls/42/reviews''
        [(''Authorization'', ''token t1'')] (PDict [(''event'', PStr ''APPROVE'')]))
     = Inl (Raised ''ConnectionError'' ''Connection refused'') \<and>
   fst (action_approve github_down (click offer_message) fresh) = None \<and>
   last (calls (snd (action_approve github_down (click offer_message) fresh))) =
     Say [Section_mrkdwn ''Failed to approve *athenianco/foo#42*:'',
          Section_plain ''ConnectionError: Connection refused'']
         ''Failed to approve *athenianco/foo#42*'' None None \<and>
   approved_count (snd (action_approve github_down (click offer_message) fresh)) = 0"
proof -
  let ?e = "Raised ''ConnectionError'' ''Connection refused''"
  have c: "credential github_down (click offer_message) = Inr ''t1''"
    by (simp add: click_credential github_down_def)
  have q: "requests github_down (approval_post ''athenianco/foo'' ''42'' ''t1'') = Inl ?e"
    by (simp add: github_down_def)
  have repo: "''athenianco/foo'' = py_str (repr_dict github_down) (PStr ''athenianco/foo'')"
    and num: "''42'' = py_str (repr_dict github_down) (PInt 42)"
    by (simp_all add: str_int_42)
  from c q have d: "credential github_down (click offer_message) = Inl ?e \<or>
         (\<exists>token. credential github_down (click offer_message) = Inr token \<and>
                  requests github_down (approval_post ''athenianco/foo'' ''42'' token) = Inl ?e)"
    by blast
  from approval_exception_reported[OF offer_message_target(3) repo num d, of fresh] c q
    offer_message_target(3)
  show ?thesis
    by (simp add: approval_post_def failure_reply_def fresh_def github_down_def)
qed

text \<open>
  C4, as the claim states it, fails: here the approval request returns 200 for a callback
  whose event payload has no \<^verbatim>\<open>ts\<close>. The pull request is approved, and the
  \<^verbatim>\<open>KeyError\<close> of line 154 escapes the handler: no reaction is added, the offer is
  not deleted and \<^verbatim>\<open>approved_prs\<close> stays at 0.
\<close>

theorem approval_without_timestamp_counterexample:
  "requests github_up
     (Requests_post ''https://api.github.com/repos/athenianco/foo/pulls/42/reviews''
        [(''Authorization'', ''token t1'')] (PDict [(''event'', PStr ''APPROVE'')]))
     = Inr \<lparr>ok = True, status_code = 200, resp_text = ''+a''\<rparr> \<and>
   action_approve github_up
     (click [(''ts'', PStr ''1700000001.000200''),
             (''metadata'', PDict [(''event_type'', PStr ''approve_offer''),
                (''event_payload'', PDict [(''repository'', PStr ''athenianco/foo''),
                                           (''number'', PInt 42)])])]) fresh
     = (Some (KeyError ''ts''),
        \<lparr>calls = [Ack,
                  Requests_post ''https://api.github.com/repos/athenianco/foo/pulls/42/reviews''
                    [(''Authorization'', ''token t1'')] (PDict [(''event'', PStr ''APPROVE'')])],
         sent_count = 0, approved_count = 0\<rparr>)"
  by (simp add: action_approve_def approve_request_def approve_call_def approved_def click_def
        callback_metadata_def github_up_def fresh_def emit_def str_int_42)

text \<open>
  The two Slack calls of lines 153 to 156 are not guarded either. When
  \<^verbatim>\<open>reactions_add\<close> raises (Slack answers \<^verbatim>\<open>already_reacted\<close> when the bot has
  put this reaction on the message before, as after the first of two offers made for one
  message), the exception leaves the handler after the approval: the offer is not deleted
  and \<^verbatim>\<open>approved_prs\<close> keeps its value. When \<^verbatim>\<open>chat_delete\<close> raises, the
  reaction has been added and \<^verbatim>\<open>approved_prs\<close> keeps its value.
\<close>

lemma refused_reaction_escapes:
  assumes "py_getitem body ''message'' = Inr message"
    and "callback_metadata message = Inr metadata"
    and "py_getitem metadata ''repository'' = Inr repository"
    and "py_getitem metadata ''number'' = Inr number"
    and "py_getitem metadata ''ts'' = Inr ts"
    and "bind_exn (py_getitem body ''channel'') (\<lambda>c. py_getitem c ''id'') = Inr channel"
    and "credential env body = Inr token"
    and "review = approval_post (py_str (repr_dict env) repository)
                    (py_str (repr_dict env) number) token"
    and "requests env review = Inr r"
    and "ok r"
    and "slack env (Reactions_add channel ts ''heavy_check_mark'') = Some e"
  shows "action_approve env body st =
           (Some e, st\<lparr>calls := calls st @
                         [Ack, review, Reactions_add channel ts ''heavy_check_mark'']\<rparr>)"
proof -
  from approve_request_posted[OF assms(3,4,7)] assms(8,9)
  have "approve_request env body metadata (emit Ack st) = (Inr r, emit review (emit Ack st))"
    by simp
  with assms show ?thesis
    by (simp add: action_approve_def approved_def emit_def Let_def)
qed

lemma refused_deletion_escapes:
  assumes "py_getitem body ''message'' = Inr message"
    and "callback_metadata message = Inr metadata"
    and "py_getitem metadata ''repository'' = Inr repository"
    and "py_getitem metadata ''number'' = Inr number"
    and "py_getitem metadata ''ts'' = Inr ts"
    and "py_getitem message ''ts'' = Inr mts"
    and "bind_exn (py_getitem body ''channel'') (\<lambda>c. py_getitem c ''id'') = Inr channel"
    and "credential env body = Inr token"
    and "review = approval_post (py_str (repr_dict env) repository)
                    (py_str (repr_dict env) number) token"
    and "requests env review = Inr r"
    and "ok r"
    and "slack env (Reactions_add channel ts ''heavy_check_mark'') = None"
    and "slack env (Chat_delete channel mts) = Some e"
  shows "action_approve env body st =
           (Some e, st\<lparr>calls := calls st @
                         [Ack, review, Reactions_add channel ts ''heavy_check_mark'',
                          Chat_delete channel mts]\<rparr>)"
proof -
  from approve_request_posted[OF assms(3,4,8)] assms(9,10)
  have "approve_request env body metadata (emit Ack st) = (Inr r, emit review (emit Ack st))"
    by simp
  with assms show ?thesis
    by (simp add: action_approve_def approved_def emit_def Let_def)
qed

lemma refused_reaction_run:
  "action_approve reaction_refused (click offer_message) fresh =
     (Some (Raised ''SlackApiError'' ''already_reacted''),
      \<lparr>calls = [Ack,
                Requests_post ''https://api.github.com/repos/athenianco/foo/pulls/42/reviews''
                  [(''Authorization'', ''token t1'')] (PDict [(''event'', PStr ''APPROVE'')]),
                Reactions_add (PStr ''C3'') (PStr ''1700000000.000100'') ''heavy_check_mark''],
       sent_count = 0, approved_count = 0\<rparr>)"
proof -
  let ?md = "PDict [(''repository'', PStr ''athenianco/foo''), (''number'', PInt 42),
               (''ts'', PStr ''1700000000.000100'')]"
  let ?r = "\<lparr>ok = True, status_code = 200, resp_text = ''+a''\<rparr>"
  let ?review = "approval_post (py_str (repr_dict reaction_refused) (PStr ''athenianco/foo''))
                   (py_str (repr_dict reaction_refused) (PInt 42)) ''t1''"
  have rp: "py_getitem ?md ''repository'' = Inr (PStr ''athenianco/foo'')"
    and n: "py_getitem ?md ''number'' = Inr (PInt 42)"
    and t: "py_getitem ?md ''ts'' = Inr (PStr ''1700000000.000100'')" by simp_all
  have ch: "bind_exn (py_getitem (click offer_message) ''channel'') (\<lambda>c. py_getitem c ''id'')
              = Inr (PStr ''C3'')"
    by (simp add: click_def)
  have c: "credential reaction_refused (click offer_message) = Inr ''t1''"
    by (simp add: click_credential reaction_refused_def)
  have q: "requests reaction_refused ?review = Inr ?r" by (simp add: reaction_refused_def)
  have k: "ok ?r" by simp
  have s: "slack reaction_refused
             (Reactions_add (PStr ''C3'') (PStr ''1700000000.000100'') ''heavy_check_mark'')
             = Some (Raised ''SlackApiError'' ''already_reacted'')"
    by (simp add: reaction_refused_def)
  from refused_reaction_escapes[OF offer_message_target(1,2) rp n t ch c refl q k s, of fresh]
  show ?thesis
    by (simp add: approval_post_def fresh_def str_int_42 reaction_refused_def)
qed

text \<open>
  C4, as the code has it. Take a callback that names its channel and the offer message's
  timestamp and whose event payload carries repository, number and \<^verbatim>\<open>ts\<close>. When the
  credential is resolved, the approval request returns a success, and the two Slack calls
  return, the handler sends no reply: after the acknowledgement and the request it adds
  the reaction \<^verbatim>\<open>heavy_check_mark\<close> to the message whose timestamp the payload stores,
  deletes the offer message, and increments \<^verbatim>\<open>approved_prs\<close> once.
\<close>

theorem approval_success_effects:
  assumes "py_getitem body ''message'' = Inr message"
    and "callback_metadata message = Inr metadata"
    and "py_getitem metadata ''repository'' = Inr repository"
    and "py_getitem metadata ''number'' = Inr number"
    and "py_getitem metadata ''ts'' = Inr ts"
    and "py_getitem message ''ts'' = Inr mts"
    and "bind_exn (py_getitem body ''channel'') (\<lambda>c. py_getitem c ''id'') = Inr channel"
    and "credential env body = Inr token"
    and "review = approval_post (py_str (repr_dict env) repository)
                    (py_str (repr_dict env) number) token"
    and "requests env review = Inr r"
    and "ok r"
    and "slack env (Reactions_add channel ts ''heavy_check_mark'') = None"
    and "slack env (Chat_delete channel mts) = None"
  shows "action_approve env body st =
           (None, st\<lparr>calls := calls st @
                       [Ack, review, Reactions_add channel ts ''heavy_check_mark'',
                        Chat_delete channel mts],
                     approved_count := approved_count st + 1\<rparr>)"
proof -
  from approve_request_posted[OF assms(3,4,8)] assms(9,10)
  have "approve_request env body metadata (emit Ack st) = (Inr r, emit review (emit Ack st))"
    by simp
  with assms show ?thesis
    by (simp add: action_approve_def approved_def emit_def Let_def)
qed

theorem approval_success_effects_witness:
  "credential github_up (click offer_message) = Inr ''t1'' \<and>
   requests github_up
     (Requests_post ''https://api.github.com/repos/athenianco/foo/pulls/42/reviews''
        [(''Authorization'', ''token t1'')] (PDict [(''event'', PStr ''APPROVE'')]))
     = Inr \<lparr>ok = True, status_code = 200, resp_text = ''+a''\<rparr> \<and>
   slack github_up (Reactions_add (PStr ''C3'') (PStr ''1700000000.000100'') ''heavy_check_mark'')
     = None \<and>
   slack github_up (Chat_delete (PStr ''C3'') (PStr ''1700000001.000200'')) = None \<and>
   action_approve github_up (click offer_message) fresh =
     (None,
      \<lparr>calls = [Ack,
                Requests_post ''https://api.github.com/repos/athenianco/foo/pulls/42/reviews''
                  [(''Authorization'', ''token t1'')] (PDict [(''event'', PStr ''APPROVE'')]),
                Reactions_add (PStr ''C3'') (PStr ''1700000000.000100'') ''heavy_check_mark'',
                Chat_delete (PStr ''C3'') (PStr ''1700000001.000200'')],
       sent_count = 0, approved_count = 1\<rparr>)"
proof -
  let ?md = "PDict [(''repository'', PStr ''athenianco/foo''), (''number'', PInt 42),
               (''ts'', PStr ''1700000000.000100'')]"
  let ?r = "\<lparr>ok = True, status_code = 200, resp_text = ''+a''\<rparr>"
  let ?review = "approval_post (py_str (repr_dict github_up) (PStr ''athenianco/foo''))
                   (py_str (repr_dict github_up) (PInt 42)) ''t1''"
  have rp: "py_getitem ?md ''repository'' = Inr (PStr ''athenianco/foo'')"
    and n: "py_getitem ?md ''number'' = Inr (PInt 42)"
    and t: "py_getitem ?md ''ts'' = Inr (PStr ''1700000000.000100'')" by simp_all
  have m: "py_getitem (PDict offer_message) ''ts'' = Inr (PStr ''1700000001.000200'')"
    by (simp add: offer_message_def)
  have ch: "bind_exn (py_getitem (click offer_message) ''channel'') (\<lambda>c. py_getitem c ''id'')
              = Inr (PStr ''C3'')"
    by (simp add: click_def)
  have c: "credential github_up (click offer_message) = Inr ''t1''"
    by (simp add: click_credential github_up_def)
  have q: "requests github_up ?review = Inr ?r" by (simp add: github_up_def)
  have k: "ok ?r" by simp
  have s1: "slack github_up (Reactions_add (PStr ''C3'') (PStr ''1700000000.000100'') ''heavy_check_mark'') = None"
    and s2: "slack github_up (Chat_delete (PStr ''C3'') (PStr ''1700000001.000200'')) = None"
    by (simp_all add: github_up_def)
  from approval_success_effects[OF offer_message_target(1,2) rp n t m ch c refl q k s1 s2, of fresh]
    c q s1 s2
  show ?thesis
    by (simp add: approval_post_def fresh_def str_int_42 github_up_def)
qed

text \<open>
  C8. The metadata an offer is sent with carries the event type \<^verbatim>\<open>approve_offer\<close>,
  and a callback whose message carries that metadata reads back the repository, the number
  and the timestamp of the triggering message that the offer was built from.
\<close>

theorem workflow_context_roundtrip:
  assumes "offer repo number m diff = Say blocks shown thread (Some md)"
    and "py_getitem message ''metadata'' = Inr md"
  shows "py_getitem md ''event_type'' = Inr (PStr ''approve_offer'') \<and>
         (\<exists>metadata. callback_metadata message = Inr metadata \<and>
            py_getitem metadata ''repository'' = Inr (PStr repo) \<and>
            py_getitem metadata ''number'' = Inr (PInt number) \<and>
            py_getitem metadata ''ts'' = Inr (PStr (msg_ts m)))"
proof -
  from assms(1) have "md = offer_metadata repo number (msg_ts m)"
    by (simp add: offer_def)
  with assms(2) show ?thesis
    by (simp add: offer_metadata_def callback_metadata_def)
qed

theorem workflow_context_roundtrip_witness:
  "offer ''athenianco/foo'' 42 \<lparr>msg_text = ''x'', msg_ts = ''1700000000.000100'', msg_thread_ts = None\<rparr> []
     = Say [Section_mrkdwn ''Approve this PR? *athenianco/foo#42*'',
            Actions [Button ''approve'' ''primary'' ''Approve'']]
           ''Approve this PR? athenianco/foo#42'' None
           (Some (offer_metadata ''athenianco/foo'' 42 ''1700000000.000100'')) \<and>
   py_getitem (PDict offer_message) ''metadata'' =
     Inr (offer_metadata ''athenianco/foo'' 42 ''1700000000.000100'') \<and>
   py_getitem (offer_metadata ''athenianco/foo'' 42 ''1700000000.000100'') ''event_type''
     = Inr (PStr ''approve_offer'') \<and>
   (\<exists>metadata. callback_metadata (PDict offer_message) = Inr metadata \<and>
      py_getitem metadata ''repository'' = Inr (PStr ''athenianco/foo'') \<and>
      py_getitem metadata ''number'' = Inr (PInt 42) \<and>
      py_getitem metadata ''ts'' = Inr (PStr ''1700000000.000100''))"
proof -
  let ?m = "\<lparr>msg_text = ''x'', msg_ts = ''1700000000.000100'', msg_thread_ts = None\<rparr>"
  have o: "offer ''athenianco/foo'' 42 ?m []
     = Say [Section_mrkdwn ''Approve this PR? *athenianco/foo#42*'',
            Actions [Button ''approve'' ''primary'' ''Approve'']]
           ''Approve this PR? athenianco/foo#42'' None
           (Some (offer_metadata ''athenianco/foo'' 42 ''1700000000.000100''))"
    by (simp add: offer_def str_int_42)
  have h: "py_getitem (PDict offer_message) ''metadata'' =
     Inr (offer_metadata ''athenianco/foo'' 42 ''1700000000.000100'')"
    by (simp add: offer_message_def)
  show ?thesis using o h workflow_context_roundtrip[OF o h] by simp
qed

section \<open>Properties of the performance-report bot\<close>

subsection \<open>Substrings and the time window\<close>










subsection \<open>Pagination\<close>

lemma say_chunks_accepted:
  "\<forall>c. is_say c \<longrightarrow> sentry_slack env c = None \<Longrightarrow>
   say_chunks env rendered thread js st =
     (None, st\<lparr>sentry_calls := sentry_calls st @ map (chunk_say rendered thread) js\<rparr>)"
  by (induction js arbitrary: st) (simp_all add: sentry_emit_def chunk_say_def)


lemma send_report_accepted:
  "\<forall>c. is_say c \<longrightarrow> sentry_slack env c = None \<Longrightarrow>
   send_report env rendered sp limit thread st =
     (None,
      st\<lparr>sentry_calls := sentry_calls st @
           Say [Section_mrkdwn (report_header sp limit), Divider, Section_fields (take 10 rendered)]
               (report_header sp limit) (Some thread) None
           # map (chunk_say rendered thread) [1 ..< (length rendered + 9) div 10],
        sent_performance_count := sent_performance_count st + 1\<rparr>)"
  by (simp add: send_report_def Let_def say_chunks_accepted sentry_emit_def)

text \<open>
  When Slack refuses a message of a report, the report stops there: the exception leaves
  the handler, no later page is sent and the counter keeps its value.
\<close>

lemma say_chunks_refused:
  "\<forall>j \<in> set js. sentry_slack env (chunk_say rendered thread j) = None \<Longrightarrow>
   sentry_slack env (chunk_say rendered thread i) = Some e \<Longrightarrow>
   say_chunks env rendered thread (js @ i # ks) st =
     (Some e, st\<lparr>sentry_calls := sentry_calls st @ map (chunk_say rendered thread) (js @ [i])\<rparr>)"
  by (induction js arbitrary: st) (simp_all add: sentry_emit_def)

lemma send_report_refused:
  "sentry_slack env
     (Say [Section_mrkdwn (report_header sp limit), Divider, Section_fields (take 10 rendered)]
          (report_header sp limit) (Some thread) None) = Some e \<Longrightarrow>
   send_report env rendered sp limit thread st =
     (Some e,
      st\<lparr>sentry_calls := sentry_calls st @
           [Say [Section_mrkdwn (report_header sp limit), Divider, Section_fields (take 10 rendered)]
                (report_header sp limit) (Some thread) None]\<rparr>)"
  by (simp add: send_report_def Let_def sentry_emit_def)

lemma send_report_chunk_refused:
  assumes "sentry_slack env
             (Say [Section_mrkdwn (report_header sp limit), Divider, Section_fields (take 10 rendered)]
                  (report_header sp limit) (Some thread) None) = None"
    and "[1 ..< (length rendered + 9) div 10] = js @ i # ks"
    and "\<forall>j \<in> set js. sentry_slack env (chunk_say rendered thread j) = None"
    and "sentry_slack env (chunk_say rendered thread i) = Some e"
  shows "send_report env rendered sp limit thread st =
     (Some e,
      st\<lparr>sentry_calls := sentry_calls st @
           Say [Section_mrkdwn (report_header sp limit), Divider, Section_fields (take 10 rendered)]
               (report_header sp limit) (Some thread) None
           # map (chunk_say rendered thread) (js @ [i])\<rparr>)"
  using assms(1,2) say_chunks_refused[OF assms(3,4)]
  by (simp add: send_report_def Let_def sentry_emit_def)


lemma map_exn_length: "map_exn f xs = Inr ys \<Longrightarrow> length ys = length xs"
proof (induction xs arbitrary: ys)
  case Nil
  then show ?case by simp
next
  case (Cons x xs)
  then show ?case
    by (cases "f x"; cases "map_exn f xs") auto
qed

lemma map_exn_replicate: "f x = Inr y \<Longrightarrow> map_exn f (replicate n x) = Inr (replicate n y)"
  by (induction n) simp_all

text \<open>The handler renders a record exactly when the record is shown as some text.\<close>

lemma bind_exn_Inr_iff: "bind_exn r f = Inr y \<longleftrightarrow> (\<exists>x. r = Inr x \<and> f x = Inr y)"
  by (cases r) simp_all

lemma item_get_Inr: "item_get item k = Inr v \<longleftrightarrow> map_of item k = Some v"
  by (simp add: item_get_def split: option.splits)

lemma render_line_Inr:
  "render_line env item key = Inr l \<longleftrightarrow>
     (\<exists>v shown. map_of item key = Some v \<and> format_value env key v = Inr shown \<and>
        l = ''*'' @ replace_parens key @ '':* '' @ shown)"
  by (auto simp: render_line_def bind_exn_Inr_iff item_get_Inr)

lemma render_lines_Inr:
  "map_exn (render_line env item) [k1, k2, k3, k4, k5] = Inr ls \<longleftrightarrow>
     (\<exists>l1 l2 l3 l4 l5.
        render_line env item k1 = Inr l1 \<and> render_line env item k2 = Inr l2 \<and>
        render_line env item k3 = Inr l3 \<and> render_line env item k4 = Inr l4 \<and>
        render_line env item k5 = Inr l5 \<and> ls = [l1, l2, l3, l4, l5])"
  by (simp add: bind_exn_Inr_iff) blast

lemma render_item_shown_as: "render_item env item = Inr shown \<longleftrightarrow> shown_as env item shown"
proof
  assume "render_item env item = Inr shown"
  then obtain t ls where t: "map_of item ''transaction'' = Some t"
    and ls: "map_exn (render_line env item)
               [''p50()'', ''p95()'', ''failure_rate()'', ''count_unique(user)'', ''count(user)'']
             = Inr ls"
    and sh: "shown = ''*`'' @ str_value env t @ ''`*'' @ [newline] @ py_join [newline] ls"
    unfolding render_item_def bind_exn_Inr_iff item_get_Inr by blast
  from ls obtain l1 l2 l3 l4 l5 where
    l: "render_line env item ''p50()'' = Inr l1" "render_line env item ''p95()'' = Inr l2"
       "render_line env item ''failure_rate()'' = Inr l3"
       "render_line env item ''count_unique(user)'' = Inr l4"
       "render_line env item ''count(user)'' = Inr l5"
    and lsv: "ls = [l1, l2, l3, l4, l5]"
    unfolding render_lines_Inr by blast
  from l(1) obtain a sa where a: "map_of item ''p50()'' = Some a" "percent_3fs_of_ms env a = Inr sa"
    "l1 = ''*p50:* '' @ sa"
    by (auto simp: render_line_Inr format_value_def)
  from l(2) obtain b sb where b: "map_of item ''p95()'' = Some b" "percent_3fs_of_ms env b = Inr sb"
    "l2 = ''*p95:* '' @ sb"
    by (auto simp: render_line_Inr format_value_def)
  from l(3) obtain c sc where c: "map_of item ''failure_rate()'' = Some c" "percent_3f env c = Inr sc"
    "l3 = ''*failure_rate:* '' @ sc"
    by (auto simp: render_line_Inr format_value_def)
  from l(4) obtain d where d: "map_of item ''count_unique(user)'' = Some d"
    "l4 = ''*count_unique(user):* '' @ str_value env d"
    by (auto simp: render_line_Inr format_value_def)
  from l(5) obtain e where e: "map_of item ''count(user)'' = Some e"
    "l5 = ''*count(user):* '' @ str_value env e"
    by (auto simp: render_line_Inr format_value_def)
  from sh lsv a(3) b(3) c(3) d(2) e(2)
  have "shown = ''*`'' @ str_value env t @ ''`*'' @ [newline]
          @ ''*p50:* '' @ sa @ [newline]
          @ ''*p95:* '' @ sb @ [newline]
          @ ''*failure_rate:* '' @ sc @ [newline]
          @ ''*count_unique(user):* '' @ str_value env d @ [newline]
          @ ''*count(user):* '' @ str_value env e"
    by simp
  with t a(1,2) b(1,2) c(1,2) d(1) e(1) show "shown_as env item shown"
    unfolding shown_as_def by blast
next
  assume "shown_as env item shown"
  then obtain t a b c d e sa sb sc where
    "map_of item ''transaction'' = Some t"
    "map_of item ''p50()'' = Some a" "percent_3fs_of_ms env a = Inr sa"
    "map_of item ''p95()'' = Some b" "percent_3fs_of_ms env b = Inr sb"
    "map_of item ''failure_rate()'' = Some c" "percent_3f env c = Inr sc"
    "map_of item ''count_unique(user)'' = Some d"
    "map_of item ''count(user)'' = Some e"
    "shown = ''*`'' @ str_value env t @ ''`*'' @ [newline]
          @ ''*p50:* '' @ sa @ [newline]
          @ ''*p95:* '' @ sb @ [newline]
          @ ''*failure_rate:* '' @ sc @ [newline]
          @ ''*count_unique(user):* '' @ str_value env d @ [newline]
          @ ''*count(user):* '' @ str_value env e"
    unfolding shown_as_def by blast
  then show "render_item env item = Inr shown"
    by (simp add: render_item_def render_line_def item_get_def format_value_def)
qed

lemma map_exn_list_all2:
  assumes "\<And>x y. f x = Inr y \<longleftrightarrow> P x y"
  shows "map_exn f xs = Inr ys \<longleftrightarrow> list_all2 P xs ys"
proof (induction xs arbitrary: ys)
  case Nil
  show ?case by auto
next
  case (Cons x xs)
  show ?case
  proof (cases "f x")
    case (Inl e)
    with assms[of x] show ?thesis by (auto simp: list_all2_Cons1)
  next
    case fx: (Inr y)
    show ?thesis
    proof (cases "map_exn f xs")
      case (Inl e)
      with Cons.IH fx show ?thesis by (auto simp: list_all2_Cons1)
    next
      case (Inr zs)
      with Cons.IH[of zs] have zs: "list_all2 P xs zs" by simp
      from fx assms[of x y] have xy: "P x y" by simp
      show ?thesis
      proof
        assume "map_exn f (x # xs) = Inr ys"
        with fx Inr have "ys = y # zs" by simp
        with xy zs show "list_all2 P (x # xs) ys" by simp
      next
        assume "list_all2 P (x # xs) ys"
        then obtain y' zs' where ys: "ys = y' # zs'" and "P x y'" "list_all2 P xs zs'"
          by (auto simp: list_all2_Cons1)
        with assms[of x y'] Cons.IH[of zs'] have "f x = Inr y'" "map_exn f xs = Inr zs'"
          by simp_all
        with ys show "map_exn f (x # xs) = Inr ys" by simp
      qed
    qed
  qed
qed

lemma rendered_shown_as:
  "map_exn (render_item env) items = Inr rendered \<longleftrightarrow> list_all2 (shown_as env) items rendered"
  by (rule map_exn_list_all2) (rule render_item_shown_as)

text \<open>The sample record, as the handler renders it.\<close>

lemma render_one_record: "render_item (sentry_with items) one_record = Inr one_field"
  by (simp add: render_item_def render_line_def item_get_def format_value_def one_record_def
        one_field_def sentry_with_def thousandths_def str_nat.simps digit_char_def)

lemma str_nat_1: "str_nat (Suc 0) = ''1''"
  by (simp add: str_nat.simps digit_char_def)

lemma str_nat_20: "str_nat 20 = ''20''"
  by (simp add: str_nat.simps digit_char_def)

lemma slow_question_facts:
  "trigger_re_search (msg_text slow_question)" "py_in ''api'' (msg_text slow_question)"
  "stats_period_re_search (msg_text slow_question) = None"
  by (simp_all add: slow_question_def trigger_re_search_def dotstar_match_def
        stats_period_re_match_def is_digit_def)

lemma report_fetched:
  assumes "py_in ''api'' (msg_text m)"
    and "sentry_requests env (performance_query env (stats_period_of (msg_text m)) 20) = Inr r"
    and "ok r"
    and "json_data r = Inr items"
    and "map_exn (render_item env) items = Inr rendered"
  shows "report_api_performance env m st =
           send_report env rendered (stats_period_of (msg_text m)) 20 (reply_thread m)
             (sentry_emit (performance_query env (stats_period_of (msg_text m)) 20) st)"
  using assms
  by (simp add: report_api_performance_def stats_period_of_def[symmetric]
        reply_thread_def[symmetric] Let_def)

text \<open>
  A query that Sentry answers with an error status: the body of the response, or
  \<^verbatim>\<open><empty response>\<close>, is sent to the thread, and the counter keeps its value.
\<close>

lemma report_query_refused:
  assumes "py_in ''api'' (msg_text m)"
    and "sentry_requests env (performance_query env (stats_period_of (msg_text m)) 20) = Inr r"
    and "\<not> ok r"
    and "reply = Say [] (if resp_text r = [] then ''<empty response>'' else resp_text r)
                   (Some (reply_thread m)) None"
  shows "report_api_performance env m st =
           (sentry_slack env reply,
            st\<lparr>sentry_calls := sentry_calls st @
                 [performance_query env (stats_period_of (msg_text m)) 20, reply]\<rparr>)"
  using assms
  by (simp add: report_api_performance_def stats_period_of_def[symmetric]
        reply_thread_def[symmetric] Let_def sentry_emit_def)

lemma two_elements: "length xs = 2 \<Longrightarrow> xs = [xs ! 0, xs ! 1]"
proof -
  assume "length xs = 2"
  then obtain a ys where xs: "xs = a # ys" and "length ys = 1" by (cases xs) auto
  then obtain b where "ys = [b]" by (cases ys) auto
  with xs show ?thesis by simp
qed

text \<open>
  C5, as the claim states it, fails for an empty result set: \<open>ceil(0/10)\<close> is 0, and the
  handler sends one message, the header with no record.
\<close>

theorem empty_result_set_counterexample:
  "sentry_requests (sentry_with []) (performance_query (sentry_with []) ''24h'' 20)
     = Inr \<lparr>ok = True, status_code = 200, resp_text = ''{}'', json_data = Inr []\<rparr> \<and>
   (length ([] :: (string \<times> sample) list list) + 9) div 10 = 0 \<and>
   report_api_performance (sentry_with []) slow_question no_counts =
     (None,
      \<lparr>sentry_calls =
         [performance_query (sentry_with []) ''24h'' 20,
          Say [Section_mrkdwn ''API performance report from Sentry, last 24h,  sorted by p95 descending, limit 20'',
               Divider, Section_fields []]
              ''API performance report from Sentry, last 24h,  sorted by p95 descending, limit 20''
              (Some ''1700000000.000100'') None],
       sent_performance_count = 1\<rparr>)"
proof -
  let ?env = "sentry_with []"
  let ?r = "\<lparr>ok = True, status_code = 200, resp_text = ''{}'',
             json_data = Inr ([] :: (string \<times> sample) list list)\<rparr>"
  have s: "\<forall>c. is_say c \<longrightarrow> sentry_slack ?env c = None"
    by (simp add: sentry_with_def)
  have sp: "stats_period_of (msg_text slow_question) = ''24h''"
    using slow_question_facts(3) by (simp add: stats_period_of_def)
  have q: "sentry_requests ?env (performance_query ?env (stats_period_of (msg_text slow_question)) 20) = Inr ?r"
    by (simp add: sentry_with_def)
  have k: "ok ?r" and j: "json_data ?r = Inr []" by simp_all
  have f: "map_exn (render_item ?env) [] = Inr []" by simp
  have t: "reply_thread slow_question = ''1700000000.000100''"
    by (simp add: reply_thread_def slow_question_def)
  from report_fetched[OF slow_question_facts(2) q k j f, of no_counts]
  have "report_api_performance ?env slow_question no_counts =
     (None,
      \<lparr>sentry_calls =
         [performance_query ?env ''24h'' 20,
          Say [Section_mrkdwn (report_header ''24h'' 20), Divider, Section_fields []]
              (report_header ''24h'' 20) (Some ''1700000000.000100'') None],
       sent_performance_count = 1\<rparr>)"
    by (simp add: send_report_accepted[OF s] sp t sentry_emit_def no_counts_def)
  moreover from q sp have "sentry_requests ?env (performance_query ?env ''24h'' 20) = Inr ?r"
    by simp
  ultimately show ?thesis
    by (simp add: report_header_def str_nat_20)
qed

text \<open>
  C5, as the code has it. Take a fetched result set of \<open>M\<close> records that all render
  (each record carries the transaction and the five fields, and \<^verbatim>\<open>float\<close> accepts
  its \<^verbatim>\<open>p50()\<close>, \<^verbatim>\<open>p95()\<close> and \<^verbatim>\<open>failure_rate()\<close>), \<open>rendered\<close> being
  the texts of the records in order, and let Slack accept every message. The handler
  sends the query and then \<open>ceil(M/10)\<close> messages when \<open>M \<ge> 1\<close>, and one message
  when \<open>M = 0\<close>. The first message is the header (time window, sort key, limit), a
  divider and the first ten records; message \<open>i\<close> (from 1) is titled
  \<^verbatim>\<open>(chunk i)\<close> and holds records \<open>10 i\<close> to \<open>10 i + 9\<close>. All go to the reply thread
  of the triggering message, and \<^verbatim>\<open>sent_sentry_performance_reports\<close> is incremented
  once.
\<close>

theorem report_pages:
  assumes "py_in ''api'' (msg_text m)"
    and "sentry_requests env (performance_query env (stats_period_of (msg_text m)) 20) = Inr r"
    and "ok r"
    and "json_data r = Inr items"
    and "list_all2 (shown_as env) items rendered"
    and "\<forall>c. is_say c \<longrightarrow> sentry_slack env c = None"
    and "header = ''API performance report from Sentry, last '' @ stats_period_of (msg_text m)
                    @ '',  sorted by p95 descending, limit 20''"
  shows "\<exists>msgs.
           report_api_performance env m st =
             (None, st\<lparr>sentry_calls := sentry_calls st
                          @ performance_query env (stats_period_of (msg_text m)) 20 # msgs,
                        sent_performance_count := sent_performance_count st + 1\<rparr>) \<and>
           length rendered = length items \<and>
           length msgs = (if items = [] then 1 else (length items + 9) div 10) \<and>
           msgs ! 0 = Say [Section_mrkdwn header, Divider, Section_fields (take 10 rendered)]
                          header (Some (reply_thread m)) None \<and>
           (\<forall>i. 1 \<le> i \<and> i < length msgs \<longrightarrow>
                msgs ! i = Say [Section_fields (take 10 (drop (i * 10) rendered))]
                               (''(chunk '' @ str_nat i @ '')'') (Some (reply_thread m)) None)"
proof -
  let ?sp = "stats_period_of (msg_text m)"
  let ?n = "(length rendered + 9) div 10"
  let ?head = "Say [Section_mrkdwn header, Divider, Section_fields (take 10 rendered)]
                  header (Some (reply_thread m)) None"
  let ?msgs = "?head # map (chunk_say rendered (reply_thread m)) [1 ..< ?n]"
  have h: "report_header ?sp 20 = header"
    using assms(7) by (simp add: report_header_def str_nat_20)
  have rendered: "map_exn (render_item env) items = Inr rendered"
    using assms(5) by (simp add: rendered_shown_as)
  have len: "length rendered = length items"
    using rendered by (rule map_exn_length)
  have "report_api_performance env m st =
          send_report env rendered ?sp 20 (reply_thread m)
            (sentry_emit (performance_query env ?sp 20) st)"
    using assms(1-4) rendered by (rule report_fetched)
  then have run: "report_api_performance env m st =
             (None, st\<lparr>sentry_calls := sentry_calls st @ performance_query env ?sp 20 # ?msgs,
                        sent_performance_count := sent_performance_count st + 1\<rparr>)"
    by (simp add: send_report_accepted[OF assms(6)] h sentry_emit_def)
  have n: "length ?msgs = (if items = [] then 1 else (length items + 9) div 10)"
    using len by (cases items) auto
  have chunk: "\<forall>i. 1 \<le> i \<and> i < length ?msgs \<longrightarrow>
                ?msgs ! i = Say [Section_fields (take 10 (drop (i * 10) rendered))]
                               (''(chunk '' @ str_nat i @ '')'') (Some (reply_thread m)) None"
  proof (intro allI impI)
    fix i assume i: "1 \<le> i \<and> i < length ?msgs"
    then obtain j where j: "i = Suc j" by (cases i) auto
    with i have "j < length [1 ..< ?n]" by simp
    then have "map (chunk_say rendered (reply_thread m)) [1 ..< ?n] ! j
                 = chunk_say rendered (reply_thread m) ([1 ..< ?n] ! j)"
      by (rule nth_map)
    moreover from \<open>j < length [1 ..< ?n]\<close> have "[1 ..< ?n] ! j = 1 + j"
      by (intro nth_upt) simp
    ultimately show "?msgs ! i = Say [Section_fields (take 10 (drop (i * 10) rendered))]
                               (''(chunk '' @ str_nat i @ '')'') (Some (reply_thread m)) None"
      using j by (simp add: chunk_say_def)
  qed
  from run len n chunk show ?thesis
    by (intro exI[of _ ?msgs]) simp
qed

theorem report_pages_witness:
  "py_in ''api'' (msg_text slow_question) \<and>
   sentry_requests (sentry_with (replicate 11 one_record))
     (performance_query (sentry_with (replicate 11 one_record)) ''24h'' 20)
     = Inr \<lparr>ok = True, status_code = 200, resp_text = ''{}'', json_data = Inr (replicate 11 one_record)\<rparr> \<and>
   list_all2 (shown_as (sentry_with (replicate 11 one_record)))
     (replicate 11 one_record) (replicate 11 one_field) \<and>
   report_api_performance (sentry_with (replicate 11 one_record)) slow_question no_counts =
     (None,
      \<lparr>sentry_calls =
         [performance_query (sentry_with (replicate 11 one_record)) ''24h'' 20,
          Say [Section_mrkdwn ''API performance report from Sentry, last 24h,  sorted by p95 descending, limit 20'',
               Divider, Section_fields (replicate 10 one_field)]
              ''API performance report from Sentry, last 24h,  sorted by p95 descending, limit 20''
              (Some ''1700000000.000100'') None,
          Say [Section_fields [one_field]] ''(chunk 1)'' (Some ''1700000000.000100'') None],
       sent_performance_count = 1\<rparr>)"
proof -
  let ?env = "sentry_with (replicate 11 one_record)"
  let ?r = "\<lparr>ok = True, status_code = 200, resp_text = ''{}'', json_data = Inr (replicate 11 one_record)\<rparr>"
  let ?header = "''API performance report from Sentry, last 24h,  sorted by p95 descending, limit 20''"
  have sp: "stats_period_of (msg_text slow_question) = ''24h''"
    using slow_question_facts(3) by (simp add: stats_period_of_def)
  have a: "py_in ''api'' (msg_text slow_question)" by (rule slow_question_facts(2))
  have q: "sentry_requests ?env (performance_query ?env (stats_period_of (msg_text slow_question)) 20) = Inr ?r"
    by (simp add: sentry_with_def)
  have k: "ok ?r" by simp
  have j: "json_data ?r = Inr (replicate 11 one_record)" by simp
  have "map_exn (render_item ?env) (replicate 11 one_record) = Inr (replicate 11 one_field)"
    by (rule map_exn_replicate) (rule render_one_record)
  then have f: "list_all2 (shown_as ?env) (replicate 11 one_record) (replicate 11 one_field)"
    by (simp only: rendered_shown_as)
  have s: "\<forall>c. is_say c \<longrightarrow> sentry_slack ?env c = None"
    by (simp add: sentry_with_def)
  have h: "?header = ''API performance report from Sentry, last '' @ stats_period_of (msg_text slow_question)
                    @ '',  sorted by p95 descending, limit 20''"
    by (simp add: sp)
  from report_pages[OF a q k j f s h, of no_counts] obtain msgs where
    run: "report_api_performance ?env slow_question no_counts =
             (None, no_counts\<lparr>sentry_calls := sentry_calls no_counts
                          @ performance_query ?env (stats_period_of (msg_text slow_question)) 20 # msgs,
                        sent_performance_count := sent_performance_count no_counts + 1\<rparr>)"
    and len: "length msgs = (if replicate 11 one_record = [] then 1 else (length (replicate 11 one_record) + 9) div 10)"
    and first: "msgs ! 0 = Say [Section_mrkdwn ?header, Divider, Section_fields (take 10 (replicate 11 one_field))]
                          ?header (Some (reply_thread slow_question)) None"
    and chunk: "\<forall>i. 1 \<le> i \<and> i < length msgs \<longrightarrow>
                msgs ! i = Say [Section_fields (take 10 (drop (i * 10) (replicate 11 one_field)))]
                               (''(chunk '' @ str_nat i @ '')'') (Some (reply_thread slow_question)) None"
    by blast
  from len have l2: "length msgs = 2" by simp
  with chunk have "msgs ! 1 = Say [Section_fields (take 10 (drop (1 * 10) (replicate 11 one_field)))]
                               (''(chunk '' @ str_nat 1 @ '')'') (Some (reply_thread slow_question)) None"
    by simp
  then have c1: "msgs ! 1 = Say [Section_fields [one_field]] ''(chunk 1)'' (Some ''1700000000.000100'') None"
    by (simp add: str_nat_1 reply_thread_def slow_question_def)
  from first have c0: "msgs ! 0 = Say [Section_mrkdwn ?header, Divider, Section_fields (replicate 10 one_field)]
                          ?header (Some ''1700000000.000100'') None"
    by (simp add: reply_thread_def slow_question_def)
  from two_elements[OF l2] c0 c1 have msgs: "msgs =
      [Say [Section_mrkdwn ?header, Divider, Section_fields (replicate 10 one_field)]
           ?header (Some ''1700000000.000100'') None,
       Say [Section_fields [one_field]] ''(chunk 1)'' (Some ''1700000000.000100'') None]"
    by simp
  from run sp have r': "report_api_performance ?env slow_question no_counts =
        (None, \<lparr>sentry_calls = performance_query ?env ''24h'' 20 # msgs, sent_performance_count = 1\<rparr>)"
    by (simp add: no_counts_def)
  from q sp have q': "sentry_requests ?env (performance_query ?env ''24h'' 20) = Inr ?r" by simp
  from a q' f r' show ?thesis unfolding msgs by simp
qed

subsection \<open>The trigger\<close>









end
